theory Spec2Isabelle
  imports Complex_Main "HOL-Library.Log_Nat" "HOL-Library.Sublist"
begin

section \<open>JavaScript values used by the server\<close>

subsection \<open>Numbers\<close>

text \<open>
  A JavaScript number is an IEEE 754 binary64 value. The finite ones are carried as the
  rational they denote; negative zero is identified with zero (the only division of the
  source whose divisor can be zero has the divisor \<^verbatim>\<open>assignments.length\<close>, which is never
  negative zero).
\<close>

datatype number = NaN | PInf | NInf | Fin rat

text \<open>\<open>flog2 x\<close> is the binary exponent of a positive rational: \<open>2 powi flog2 x \<le> x < 2 powi (flog2 x + 1)\<close>.\<close>

definition flog2 :: "rat \<Rightarrow> int" where
  "flog2 x = (case quotient_of x of (a, b) \<Rightarrow>
     let d = bitlen a - bitlen b in if 2 powi d \<le> x then d else d - 1)"

text \<open>Round to the nearest integer, ties to the even one.\<close>

definition rne :: "rat \<Rightarrow> int" where
  "rne m = (let f = \<lfloor>m\<rfloor>; d = m - of_int f in
     if d < 1 / 2 then f else if 1 / 2 < d then f + 1 else if even f then f else f + 1)"

text \<open>
  The spacing of binary64 values around a positive \<open>a\<close> is \<open>2 powi quantum a\<close>: 53 significant
  bits in the normal range, and the fixed spacing \<open>2 powi (- 1074)\<close> of the subnormal range.
\<close>

definition quantum :: "rat \<Rightarrow> int" where
  "quantum a = max (flog2 a - 52) (- 1074)"

definition rnd_mag :: "rat \<Rightarrow> rat" where
  "rnd_mag a = of_int (rne (a / 2 powi quantum a)) * 2 powi quantum a"

text \<open>The binary64 value of an exact result (round to nearest, ties to even, overflow to infinity).\<close>

definition round64 :: "rat \<Rightarrow> number" where
  "round64 x = (if x = 0 then Fin 0 else
     let v = rnd_mag \<bar>x\<bar> in
     if 2 ^ 1024 \<le> v then (if 0 < x then PInf else NInf) else Fin (sgn x * v))"

text \<open>The arithmetic operators \<^verbatim>\<open>+\<close>, \<^verbatim>\<open>-\<close>, \<^verbatim>\<open>*\<close> and \<^verbatim>\<open>/\<close> on numbers.\<close>

fun js_neg :: "number \<Rightarrow> number" where
  "js_neg NaN = NaN"
| "js_neg PInf = NInf"
| "js_neg NInf = PInf"
| "js_neg (Fin a) = Fin (- a)"

fun js_add :: "number \<Rightarrow> number \<Rightarrow> number" where
  "js_add (Fin a) (Fin b) = round64 (a + b)"
| "js_add NaN _ = NaN"
| "js_add _ NaN = NaN"
| "js_add PInf NInf = NaN"
| "js_add NInf PInf = NaN"
| "js_add PInf _ = PInf"
| "js_add NInf _ = NInf"
| "js_add _ PInf = PInf"
| "js_add _ NInf = NInf"

definition js_sub :: "number \<Rightarrow> number \<Rightarrow> number" where
  "js_sub x y = js_add x (js_neg y)"

text \<open>The sign of a non-NaN number: \<open>1\<close>, \<open>0\<close> or \<open>- 1\<close>.\<close>

fun sign_of :: "number \<Rightarrow> rat" where
  "sign_of (Fin a) = sgn a"
| "sign_of PInf = 1"
| "sign_of NInf = - 1"
| "sign_of NaN = 0"

definition signed_inf :: "rat \<Rightarrow> number" where
  "signed_inf s = (if 0 < s then PInf else NInf)"

fun js_mul :: "number \<Rightarrow> number \<Rightarrow> number" where
  "js_mul (Fin a) (Fin b) = round64 (a * b)"
| "js_mul NaN _ = NaN"
| "js_mul _ NaN = NaN"
| "js_mul x y = (if sign_of x * sign_of y = 0 then NaN else signed_inf (sign_of x * sign_of y))"

fun js_div :: "number \<Rightarrow> number \<Rightarrow> number" where
  "js_div (Fin a) (Fin b) =
     (if b = 0 then (if a = 0 then NaN else signed_inf a) else round64 (a / b))"
| "js_div NaN _ = NaN"
| "js_div _ NaN = NaN"
| "js_div (Fin a) y = Fin 0"
| "js_div x (Fin b) = (if 0 \<le> b then x else js_neg x)"
| "js_div x y = NaN"

text \<open>\<^verbatim>\<open>Math.round\<close> (ties towards \<open>+\<infinity>\<close>) and \<^verbatim>\<open>Math.ceil\<close>.\<close>

fun Math_round :: "number \<Rightarrow> number" where
  "Math_round (Fin a) = Fin (of_int \<lfloor>a + 1 / 2\<rfloor>)"
| "Math_round x = x"

fun Math_ceil :: "number \<Rightarrow> number" where
  "Math_ceil (Fin a) = Fin (of_int \<lceil>a\<rceil>)"
| "Math_ceil x = x"

text \<open>Truthiness of a number: \<open>0\<close> and \<open>NaN\<close> are falsy.\<close>

fun truthy :: "number \<Rightarrow> bool" where
  "truthy NaN = False"
| "truthy (Fin a) = (a \<noteq> 0)"
| "truthy _ = True"

text \<open>\<^verbatim>\<open>x > 0\<close> on numbers, as the sort of the runtime reads a comparator's result.\<close>

fun positive :: "number \<Rightarrow> bool" where
  "positive (Fin a) = (0 < a)"
| "positive PInf = True"
| "positive _ = False"

text \<open>The relational operators \<^verbatim>\<open><=\<close> and \<^verbatim>\<open>>=\<close>: every comparison with \<open>NaN\<close> is false.\<close>

fun js_le :: "number \<Rightarrow> number \<Rightarrow> bool" where
  "js_le (Fin a) (Fin b) = (a \<le> b)"
| "js_le NaN _ = False"
| "js_le _ NaN = False"
| "js_le NInf _ = True"
| "js_le _ PInf = True"
| "js_le _ _ = False"

definition js_ge :: "number \<Rightarrow> number \<Rightarrow> bool" where
  "js_ge x y = js_le y x"

subsection \<open>Strings\<close>

text \<open>
  Strings are sequences of code units. \<^verbatim>\<open>s.includes(q)\<close> holds when \<open>q\<close> occurs in \<open>s\<close> as a
  contiguous block, which is \<^const>\<open>sublist\<close>. A value of type \<^verbatim>\<open>string | null\<close> is a
  \<^typ>\<open>string option\<close>; it is falsy when it is \<^verbatim>\<open>null\<close> or the empty string.
\<close>

definition String_includes :: "string \<Rightarrow> string \<Rightarrow> bool" where
  "String_includes s q = sublist q s"

fun falsy_string :: "string option \<Rightarrow> bool" where
  "falsy_string None = True"
| "falsy_string (Some s) = (s = [])"

text \<open>The decimal digits of a non-negative integer, as a template literal prints it.\<close>

fun decimal :: "nat \<Rightarrow> string" where
  "decimal n = (if n < 10 then [char_of (48 + n)]
     else decimal (n div 10) @ [char_of (48 + n mod 10)])"

subsection \<open>Dates\<close>

text \<open>
  A \<^verbatim>\<open>Date\<close> object holds a time value: a whole number of milliseconds since the epoch, or
  \<open>NaN\<close> for an invalid date (\<open>None\<close>). \<^verbatim>\<open>new Date(v)\<close> for a number \<open>v\<close> clips it: values that
  are not finite or lie beyond \<open>8.64e15\<close> milliseconds give an invalid date, the others are
  truncated towards zero.
\<close>

type_synonym Date = "int option"

definition trunc_zero :: "rat \<Rightarrow> int" where
  "trunc_zero a = (if 0 \<le> a then \<lfloor>a\<rfloor> else \<lceil>a\<rceil>)"

fun new_Date_number :: "number \<Rightarrow> Date" where
  "new_Date_number (Fin a) = (if \<bar>a\<bar> \<le> 8640000000000000 then Some (trunc_zero a) else None)"
| "new_Date_number _ = None"

fun getTime :: "Date \<Rightarrow> number" where
  "getTime None = NaN"
| "getTime (Some t) = Fin (of_int t)"

text \<open>
  \<^verbatim>\<open>new Date(x)\<close> for \<open>x\<close> of type \<^verbatim>\<open>string | null\<close>: a string is parsed by the runtime's date
  parser (the parameter \<open>parse\<close>, \<open>None\<close> when the string is not a date), \<^verbatim>\<open>null\<close> is
  converted to the number \<open>0\<close>.
\<close>

fun new_Date_value :: "(string \<Rightarrow> int option) \<Rightarrow> string option \<Rightarrow> Date" where
  "new_Date_value parse None = Some 0"
| "new_Date_value parse (Some s) = parse s"

text \<open>Comparing two \<^verbatim>\<open>Date\<close> objects with \<^verbatim>\<open>>=\<close> or \<^verbatim>\<open><=\<close> compares their time values as numbers.\<close>

definition Date_ge :: "Date \<Rightarrow> Date \<Rightarrow> bool" where
  "Date_ge d e = js_ge (getTime d) (getTime e)"

definition Date_le :: "Date \<Rightarrow> Date \<Rightarrow> bool" where
  "Date_le d e = js_le (getTime d) (getTime e)"

subsection \<open>Arrays\<close>

text \<open>
  \<^verbatim>\<open>Array.prototype.sort\<close> with a comparator is a stable sort (ECMAScript 2019); it is
  modelled as the stable insertion sort driven by the comparator, an element moving behind
  another only when the comparator's result for the pair is greater than zero.
\<close>

fun insert_by :: "('a \<Rightarrow> 'a \<Rightarrow> number) \<Rightarrow> 'a \<Rightarrow> 'a list \<Rightarrow> 'a list" where
  "insert_by cmp x [] = [x]"
| "insert_by cmp x (y # ys) =
     (if positive (cmp x y) then y # insert_by cmp x ys else x # y # ys)"

definition sort_by :: "('a \<Rightarrow> 'a \<Rightarrow> number) \<Rightarrow> 'a list \<Rightarrow> 'a list" where
  "sort_by cmp xs = foldr (insert_by cmp) xs []"

section \<open>Data model\<close>

text \<open>
  The interfaces \<^verbatim>\<open>CanvasConfig\<close>, \<^verbatim>\<open>Course\<close> and \<^verbatim>\<open>Assignment\<close> of the source. Field names
  carry a prefix where two interfaces share a name. An assignment fetched with
  \<^verbatim>\<open>include[]=submission\<close> carries a \<^verbatim>\<open>submission\<close> object, and an enrollment fetched with
  \<^verbatim>\<open>include[]=grades\<close> a \<^verbatim>\<open>grades\<close> object; \<^verbatim>\<open>null\<close> and \<^verbatim>\<open>undefined\<close> are both \<open>None\<close>.
\<close>

record CanvasConfig =
  baseUrl :: string
  accessToken :: string

record Course =
  c_id :: number
  c_name :: string
  course_code :: string
  enrollment_term_id :: number

record Submission =
  submitted_at :: "string option"
  score :: "number option"
  grade :: "string option"

record Assignment =
  a_id :: number
  a_name :: string
  due_at :: "string option"
  points_possible :: number
  submission_types :: "string list"
  course_id :: number
  html_url :: string
  submission :: "Submission option"

record Grades =
  current_grade :: "string option"
  current_score :: "number option"

record Enrollment =
  grades :: "Grades option"

subsection \<open>Errors\<close>

text \<open>
  What can be thrown: an \<^verbatim>\<open>McpError\<close> with the code and message given to its constructor,
  another \<^verbatim>\<open>Error\<close> object with its \<^verbatim>\<open>message\<close>, or a value that is not an \<^verbatim>\<open>Error\<close>.
  \<open>ErrorCode\<close> has the two codes of the protocol library that the source uses.
\<close>

datatype ErrorCode = InternalError | MethodNotFound

datatype thrown = ErrorObject string | OtherValue

datatype exn = McpError ErrorCode string | Thrown thrown

text \<open>\<^verbatim>\<open>error instanceof Error ? error.message : 'Unknown error'\<close>\<close>

fun message_or_unknown :: "thrown \<Rightarrow> string" where
  "message_or_unknown (ErrorObject m) = m"
| "message_or_unknown OtherValue = ''Unknown error''"

section \<open>The upstream client\<close>

definition CANVAS_BASE_URL :: string where
  "CANVAS_BASE_URL = ''https://bruinlearn.ucla.edu''"

definition API_VERSION :: string where
  "API_VERSION = ''v1''"

text \<open>
  The endpoints the handlers ask for, one constructor for each template of the source:
  \<^item> \<^verbatim>\<open>/courses?enrollment_state=active&per_page=100\<close>
  \<^item> \<^verbatim>\<open>/courses?enrollment_state=active&include[]=total_scores&per_page=100\<close>
  \<^item> \<^verbatim>\<open>/courses/${courseId}\<close>
  \<^item> \<^verbatim>\<open>/courses/${id}/assignments?per_page=100\<close>
  \<^item> \<^verbatim>\<open>/courses/${courseId}/assignments?include[]=submission&per_page=100\<close>
  \<^item> \<^verbatim>\<open>/courses/${id}/enrollments?user_id=self&include[]=grades\<close>

  The identifier is the value interpolated into the template; it is \<open>None\<close> where the
  source interpolates \<^verbatim>\<open>undefined\<close>.
\<close>

datatype endpoint =
    ActiveCourses
  | ActiveCoursesTotalScores
  | CourseById "number option"
  | CourseAssignments number
  | CourseAssignmentsSubmission "number option"
  | CourseEnrollments "number option"

text \<open>
  One HTTP request: the URL prefix \<^verbatim>\<open>${baseUrl}/api/${API_VERSION}\<close>, the endpoint and the
  bearer token of the \<^verbatim>\<open>Authorization\<close> header.
\<close>

datatype request = Request string endpoint string

text \<open>
  What \<^verbatim>\<open>fetch\<close> and \<^verbatim>\<open>response.json()\<close> do for a request: \<^verbatim>\<open>fetch\<close> rejects, or it
  resolves to a response with \<^verbatim>\<open>ok\<close>, \<^verbatim>\<open>status\<close> and \<^verbatim>\<open>statusText\<close>, whose body either fails to
  decode or decodes to a value.
\<close>

datatype 'a fetched =
    Rejects thrown
  | Response bool nat string "thrown + 'a"

text \<open>
  The runtime and the network as the process sees them: the environment variables, the
  date parser and the lower-casing of strings of the JavaScript runtime, the answers of
  the upstream service (typed by what the handlers read from them), and which of several
  concurrently failing requests fails first.
\<close>

record runtime =
  process_env :: "string \<Rightarrow> string option"
  Date_parse :: "string \<Rightarrow> int option"
  toLowerCase :: "string \<Rightarrow> string"
  fetch_courses :: "request \<Rightarrow> Course list fetched"
  fetch_course :: "request \<Rightarrow> Course fetched"
  fetch_assignments :: "request \<Rightarrow> Assignment list fetched"
  fetch_enrollments :: "request \<Rightarrow> Enrollment list fetched"
  rejects_first :: nat

text \<open>
  An asynchronous computation: the requests it issued, in order, and its outcome, a
  thrown value or a result.
\<close>

type_synonym 'a async = "request list \<times> (exn + 'a)"

definition resolve :: "'a \<Rightarrow> 'a async" where
  "resolve v = ([], Inr v)"

definition throw :: "exn \<Rightarrow> 'a async" where
  "throw e = ([], Inl e)"

definition await :: "'a async \<Rightarrow> ('a \<Rightarrow> 'b async) \<Rightarrow> 'b async" where
  "await m f = (case m of
       (rs, Inl e) \<Rightarrow> (rs, Inl e)
     | (rs, Inr v) \<Rightarrow> (case f v of (rs', r) \<Rightarrow> (rs @ rs', r)))"

text \<open>\<^verbatim>\<open>makeCanvasRequest\<close>: every failure inside its \<^verbatim>\<open>try\<close> leaves as an internal \<^verbatim>\<open>McpError\<close>.\<close>

definition fetch_failed :: "string \<Rightarrow> exn" where
  "fetch_failed m = McpError InternalError (''Failed to fetch from Canvas: '' @ m)"

definition makeCanvasRequest ::
  "CanvasConfig \<Rightarrow> (request \<Rightarrow> 'a fetched) \<Rightarrow> endpoint \<Rightarrow> 'a async" where
  "makeCanvasRequest config fetch ep =
     (let rq = Request (baseUrl config @ ''/api/'' @ API_VERSION) ep (accessToken config) in
      ([rq],
       case fetch rq of
         Rejects t \<Rightarrow> Inl (fetch_failed (message_or_unknown t))
       | Response ok status statusText body \<Rightarrow>
           if \<not> ok
           then Inl (fetch_failed (''Canvas API error: '' @ decimal status @ '' '' @ statusText))
           else (case body of
                   Inl t \<Rightarrow> Inl (fetch_failed (message_or_unknown t))
                 | Inr v \<Rightarrow> Inr v)))"

section \<open>The query handlers\<close>

text \<open>
  Every handler returns one text block holding \<^verbatim>\<open>JSON.stringify(value, null, 2)\<close>. The
  serialiser belongs to the runtime; a handler's result is modelled as the value it
  serialises.
\<close>

record course_out =
  co_id :: number
  co_name :: string
  co_code :: string

record assignment_out =
  ao_id :: number
  ao_name :: string
  ao_due_date :: "string option"
  ao_points :: number
  ao_course_id :: number
  ao_course_name :: "string option"
  ao_url :: string

record upcoming_out =
  uo_name :: string
  uo_course :: string
  uo_due_date :: "string option"
  uo_days_until_due :: number
  uo_points :: number
  uo_url :: string

record graded_out =
  go_name :: string
  go_score :: "number option"
  go_grade :: "string option"
  go_points_possible :: number

record grade_out =
  gr_course_name :: "string option"
  gr_course_id :: number
  gr_current_grade :: "string option"
  gr_current_score :: "number option"
  gr_assignments :: "graded_out list option"

record pending_out =
  po_name :: string
  po_due_date :: "string option"
  po_points_possible :: number

record progress_out =
  pr_course_name :: string
  pr_course_code :: string
  pr_current_grade :: "string option"
  pr_current_score :: "number option"
  total_assignments :: nat
  completed_assignments :: nat
  pending_assignments :: nat
  completion_rate :: number
  pr_pending :: "pending_out list"

record search_out =
  so_name :: string
  so_course :: string
  so_due_date :: "string option"
  so_points :: number
  so_url :: string

datatype tool_result =
    CoursesText "course_out list"
  | AssignmentsText "assignment_out list"
  | UpcomingText "upcoming_out list"
  | GradesText "grade_out list"
  | ProgressText progress_out
  | SearchText "string option" "search_out list"

subsection \<open>Fetching the assignments of every course\<close>

text \<open>
  \<^verbatim>\<open>getAssignments\<close>, \<^verbatim>\<open>getUpcomingAssignments\<close> and \<^verbatim>\<open>searchAssignments\<close> run the same loop
  \<^verbatim>\<open>for (const course of courses)\<close>: fetch the assignments of the course, then push onto the
  accumulated array the items \<open>items course assignments\<close> made from them. The first request
  that fails ends the loop.
\<close>

fun each_course ::
  "CanvasConfig \<Rightarrow> runtime \<Rightarrow> (Course \<Rightarrow> Assignment list \<Rightarrow> 'b list) \<Rightarrow>
     Course list \<Rightarrow> 'b list \<Rightarrow> 'b list async" where
  "each_course config rt items [] acc = resolve acc"
| "each_course config rt items (course # rest) acc =
     (case makeCanvasRequest config (fetch_assignments rt) (CourseAssignments (c_id course)) of
        (rs, Inl e) \<Rightarrow> (rs, Inl e)
      | (rs, Inr assignments) \<Rightarrow>
          (case each_course config rt items rest (acc @ items course assignments) of
             (rs', r) \<Rightarrow> (rs @ rs', r)))"

subsection \<open>getCourses\<close>

definition course_summary :: "Course \<Rightarrow> course_out" where
  "course_summary course =
     \<lparr>co_id = c_id course, co_name = c_name course, co_code = course_code course\<rparr>"

definition getCourses :: "CanvasConfig \<Rightarrow> runtime \<Rightarrow> tool_result async" where
  "getCourses config rt =
     await (makeCanvasRequest config (fetch_courses rt) ActiveCourses)
       (\<lambda>courses. resolve (CoursesText (map course_summary courses)))"

subsection \<open>getAssignments\<close>

text \<open>
  \<^verbatim>\<open>if (courseId)\<close> for a \<^verbatim>\<open>number | undefined\<close>: the identifier when the test succeeds,
  \<open>None\<close> when \<^verbatim>\<open>courseId\<close> is \<^verbatim>\<open>undefined\<close>, \<open>0\<close> or \<open>NaN\<close>.
\<close>

fun given :: "number option \<Rightarrow> number option" where
  "given None = None"
| "given (Some n) = (if truthy n then Some n else None)"

text \<open>
  The filter applied unless completed assignments are asked for: an assignment with a
  falsy \<^verbatim>\<open>due_at\<close> stays, another one stays when \<^verbatim>\<open>new Date(assignment.due_at) >= now\<close>.
\<close>

definition not_yet_due :: "runtime \<Rightarrow> int \<Rightarrow> Assignment \<Rightarrow> bool" where
  "not_yet_due rt now assignment =
     (if falsy_string (due_at assignment) then True
      else Date_ge (new_Date_value (Date_parse rt) (due_at assignment)) (Some now))"

definition assignment_summary :: "Assignment \<times> string option \<Rightarrow> assignment_out" where
  "assignment_summary x = (case x of (assignment, course_name) \<Rightarrow>
     \<lparr>ao_id = a_id assignment, ao_name = a_name assignment, ao_due_date = due_at assignment,
      ao_points = points_possible assignment, ao_course_id = course_id assignment,
      ao_course_name = course_name, ao_url = html_url assignment\<rparr>)"

text \<open>The first half of \<^verbatim>\<open>getAssignments\<close>: the array \<^verbatim>\<open>assignments\<close> before the filter.\<close>

definition fetched_assignments ::
  "CanvasConfig \<Rightarrow> runtime \<Rightarrow> number option \<Rightarrow> (Assignment \<times> string option) list async" where
  "fetched_assignments config rt courseId =
     (case given courseId of
        Some cid \<Rightarrow>
          await (makeCanvasRequest config (fetch_assignments rt) (CourseAssignments cid))
            (\<lambda>assignments. resolve (map (\<lambda>a. (a, None)) assignments))
      | None \<Rightarrow>
          await (makeCanvasRequest config (fetch_courses rt) ActiveCourses)
            (\<lambda>courses. each_course config rt
               (\<lambda>course. map (\<lambda>a. (a, Some (c_name course)))) courses []))"

text \<open>The parameter default \<^verbatim>\<open>includeCompleted: boolean = false\<close>.\<close>

fun or_false :: "bool option \<Rightarrow> bool" where
  "or_false None = False"
| "or_false (Some b) = b"

definition getAssignments ::
  "CanvasConfig \<Rightarrow> runtime \<Rightarrow> int \<Rightarrow> number option \<Rightarrow> bool option \<Rightarrow> tool_result async" where
  "getAssignments config rt now courseId includeCompleted =
     await (fetched_assignments config rt courseId)
       (\<lambda>assignments. resolve (AssignmentsText (map assignment_summary
          (if \<not> or_false includeCompleted
           then filter (\<lambda>x. not_yet_due rt now (fst x)) assignments
           else assignments))))"

subsection \<open>getUpcomingAssignments\<close>

text \<open>\<^verbatim>\<open>new Date(now.getTime() + (daysAhead * 24 * 60 * 60 * 1000))\<close>\<close>

definition cutoffDate :: "int \<Rightarrow> number \<Rightarrow> Date" where
  "cutoffDate now daysAhead =
     new_Date_number (js_add (getTime (Some now))
       (js_mul (js_mul (js_mul (js_mul daysAhead (Fin 24)) (Fin 60)) (Fin 60)) (Fin 1000)))"

text \<open>The filter of the loop body: a falsy \<^verbatim>\<open>due_at\<close> is dropped, then the window is tested.\<close>

definition is_upcoming :: "runtime \<Rightarrow> int \<Rightarrow> Date \<Rightarrow> Assignment \<Rightarrow> bool" where
  "is_upcoming rt now cutoff assignment =
     (if falsy_string (due_at assignment) then False
      else (let dueDate = new_Date_value (Date_parse rt) (due_at assignment)
            in Date_ge dueDate (Some now) \<and> Date_le dueDate cutoff))"

text \<open>
  \<^verbatim>\<open>Math.ceil((new Date(a.due_at!).getTime() - now.getTime()) / (24 * 60 * 60 * 1000))\<close>
\<close>

definition days_until_due :: "runtime \<Rightarrow> int \<Rightarrow> Assignment \<Rightarrow> number" where
  "days_until_due rt now a =
     Math_ceil (js_div
       (js_sub (getTime (new_Date_value (Date_parse rt) (due_at a))) (getTime (Some now)))
       (Fin (24 * 60 * 60 * 1000)))"

text \<open>
  An element of \<^verbatim>\<open>upcomingAssignments\<close>: the assignment with the added fields
  \<^verbatim>\<open>course_name\<close> and \<^verbatim>\<open>days_until_due\<close>.
\<close>

type_synonym upcoming = "Assignment \<times> string \<times> number"

definition upcoming_of :: "runtime \<Rightarrow> int \<Rightarrow> Date \<Rightarrow> Course \<Rightarrow> Assignment list \<Rightarrow> upcoming list" where
  "upcoming_of rt now cutoff course assignments =
     map (\<lambda>a. (a, c_name course, days_until_due rt now a))
       (filter (is_upcoming rt now cutoff) assignments)"

text \<open>The comparator \<^verbatim>\<open>(a, b) => new Date(a.due_at).getTime() - new Date(b.due_at).getTime()\<close>\<close>

definition by_due_at :: "runtime \<Rightarrow> upcoming \<Rightarrow> upcoming \<Rightarrow> number" where
  "by_due_at rt a b =
     js_sub (getTime (new_Date_value (Date_parse rt) (due_at (fst a))))
            (getTime (new_Date_value (Date_parse rt) (due_at (fst b))))"

definition upcoming_summary :: "upcoming \<Rightarrow> upcoming_out" where
  "upcoming_summary x = (case x of (assignment, course_name, days) \<Rightarrow>
     \<lparr>uo_name = a_name assignment, uo_course = course_name, uo_due_date = due_at assignment,
      uo_days_until_due = days, uo_points = points_possible assignment,
      uo_url = html_url assignment\<rparr>)"

definition getUpcomingAssignments ::
  "CanvasConfig \<Rightarrow> runtime \<Rightarrow> int \<Rightarrow> number \<Rightarrow> tool_result async" where
  "getUpcomingAssignments config rt now daysAhead =
     await (makeCanvasRequest config (fetch_courses rt) ActiveCourses)
       (\<lambda>courses.
          await (each_course config rt (upcoming_of rt now (cutoffDate now daysAhead)) courses [])
            (\<lambda>upcomingAssignments. resolve (UpcomingText
               (map upcoming_summary (sort_by (by_due_at rt) upcomingAssignments)))))"

subsection \<open>getGrades\<close>

text \<open>\<^verbatim>\<open>enrollments[0]?.grades\<close>\<close>

fun first_grades :: "Enrollment list \<Rightarrow> Grades option" where
  "first_grades [] = None"
| "first_grades (e # es) = grades e"

definition graded_summary :: "Assignment \<Rightarrow> graded_out" where
  "graded_summary a =
     \<lparr>go_name = a_name a,
      go_score = Option.bind (submission a) score,
      go_grade = Option.bind (submission a) grade,
      go_points_possible = points_possible a\<rparr>"

fun each_course_grade ::
  "CanvasConfig \<Rightarrow> runtime \<Rightarrow> Course list \<Rightarrow> grade_out list \<Rightarrow> grade_out list async" where
  "each_course_grade config rt [] acc = resolve acc"
| "each_course_grade config rt (course # rest) acc =
     (case makeCanvasRequest config (fetch_enrollments rt) (CourseEnrollments (Some (c_id course))) of
        (rs, Inl e) \<Rightarrow> (rs, Inl e)
      | (rs, Inr enrollments) \<Rightarrow>
          (case each_course_grade config rt rest (acc @
                [\<lparr>gr_course_name = Some (c_name course), gr_course_id = c_id course,
                  gr_current_grade = Option.bind (first_grades enrollments) current_grade,
                  gr_current_score = Option.bind (first_grades enrollments) current_score,
                  gr_assignments = None\<rparr>]) of
             (rs', r) \<Rightarrow> (rs @ rs', r)))"

definition getGrades :: "CanvasConfig \<Rightarrow> runtime \<Rightarrow> number option \<Rightarrow> tool_result async" where
  "getGrades config rt courseId =
     (case given courseId of
        Some cid \<Rightarrow>
          await (makeCanvasRequest config (fetch_enrollments rt) (CourseEnrollments (Some cid)))
            (\<lambda>enrollments.
               await (makeCanvasRequest config (fetch_assignments rt)
                        (CourseAssignmentsSubmission (Some cid)))
                 (\<lambda>assignments. resolve (GradesText
                    [\<lparr>gr_course_name = None, gr_course_id = cid,
                      gr_current_grade = Option.bind (first_grades enrollments) current_grade,
                      gr_current_score = Option.bind (first_grades enrollments) current_score,
                      gr_assignments = Some (map graded_summary assignments)\<rparr>])))
      | None \<Rightarrow>
          await (makeCanvasRequest config (fetch_courses rt) ActiveCoursesTotalScores)
            (\<lambda>courses. await (each_course_grade config rt courses [])
               (\<lambda>grades. resolve (GradesText grades))))"

subsection \<open>getCourseProgress\<close>

text \<open>
  \<^verbatim>\<open>Promise.all\<close> of three requests: all three are issued; when all succeed their values are
  returned, otherwise the rejection that happens first is thrown. Which of several
  rejections comes first is decided by the network (\<open>first\<close>).
\<close>

fun rejection :: "exn + 'a \<Rightarrow> exn list" where
  "rejection (Inl e) = [e]"
| "rejection (Inr v) = []"

definition Promise_all3 ::
  "nat \<Rightarrow> 'a async \<Rightarrow> 'b async \<Rightarrow> 'c async \<Rightarrow> ('a \<times> 'b \<times> 'c) async" where
  "Promise_all3 first p q r =
     (fst p @ fst q @ fst r,
      case (snd p, snd q, snd r) of
        (Inr x, Inr y, Inr z) \<Rightarrow> Inr (x, y, z)
      | _ \<Rightarrow> (let es = rejection (snd p) @ rejection (snd q) @ rejection (snd r)
              in Inl (es ! (first mod length es))))"

text \<open>\<^verbatim>\<open>a.submission && a.submission.submitted_at\<close>\<close>

definition is_submitted :: "Assignment \<Rightarrow> bool" where
  "is_submitted a = (case submission a of
       None \<Rightarrow> False
     | Some sub \<Rightarrow> \<not> falsy_string (submitted_at sub))"

text \<open>\<^verbatim>\<open>!a.submission || !a.submission.submitted_at\<close>\<close>

definition is_pending :: "Assignment \<Rightarrow> bool" where
  "is_pending a = (case submission a of
       None \<Rightarrow> True
     | Some sub \<Rightarrow> falsy_string (submitted_at sub))"

text \<open>The \<^verbatim>\<open>length\<close> of an array as a number.\<close>

definition length_number :: "'a list \<Rightarrow> number" where
  "length_number xs = Fin (of_nat (length xs))"

text \<open>
  \<^verbatim>\<open>Math.round((completedAssignments.length / assignments.length) * 100)\<close>
\<close>

definition completion_rate_of :: "Assignment list \<Rightarrow> Assignment list \<Rightarrow> number" where
  "completion_rate_of completedAssignments assignments =
     Math_round (js_mul (js_div (length_number completedAssignments) (length_number assignments))
       (Fin 100))"

definition pending_summary :: "Assignment \<Rightarrow> pending_out" where
  "pending_summary a =
     \<lparr>po_name = a_name a, po_due_date = due_at a, po_points_possible = points_possible a\<rparr>"

definition course_progress :: "Course \<Rightarrow> Enrollment list \<Rightarrow> Assignment list \<Rightarrow> progress_out" where
  "course_progress course enrollments assignments =
     (let completedAssignments = filter is_submitted assignments;
          pendingAssignments = filter is_pending assignments
      in \<lparr>pr_course_name = c_name course,
          pr_course_code = course_code course,
          pr_current_grade = Option.bind (first_grades enrollments) current_grade,
          pr_current_score = Option.bind (first_grades enrollments) current_score,
          total_assignments = length assignments,
          completed_assignments = length completedAssignments,
          pending_assignments = length pendingAssignments,
          completion_rate = completion_rate_of completedAssignments assignments,
          pr_pending = map pending_summary pendingAssignments\<rparr>)"

definition getCourseProgress ::
  "CanvasConfig \<Rightarrow> runtime \<Rightarrow> number option \<Rightarrow> tool_result async" where
  "getCourseProgress config rt courseId =
     await (Promise_all3 (rejects_first rt)
              (makeCanvasRequest config (fetch_course rt) (CourseById courseId))
              (makeCanvasRequest config (fetch_enrollments rt) (CourseEnrollments courseId))
              (makeCanvasRequest config (fetch_assignments rt)
                 (CourseAssignmentsSubmission courseId)))
       (\<lambda>(course, enrollments, assignments).
          resolve (ProgressText (course_progress course enrollments assignments)))"

subsection \<open>searchAssignments\<close>

text \<open>
  The filter predicate, for a query that is a string:
  \<^verbatim>\<open>assignment.name.toLowerCase().includes(query.toLowerCase()) ||
  assignment.course_name.toLowerCase().includes(query.toLowerCase())\<close>
\<close>

definition matches :: "runtime \<Rightarrow> string \<Rightarrow> Assignment \<times> string \<Rightarrow> bool" where
  "matches rt query x = (case x of (assignment, course_name) \<Rightarrow>
     String_includes (toLowerCase rt (a_name assignment)) (toLowerCase rt query) \<or>
     String_includes (toLowerCase rt course_name) (toLowerCase rt query))"

definition search_summary :: "Assignment \<times> string \<Rightarrow> search_out" where
  "search_summary x = (case x of (assignment, course_name) \<Rightarrow>
     \<lparr>so_name = a_name assignment, so_course = course_name, so_due_date = due_at assignment,
      so_points = points_possible assignment, so_url = html_url assignment\<rparr>)"

text \<open>
  With \<^verbatim>\<open>query\<close> undefined the predicate throws a \<^verbatim>\<open>TypeError\<close> at the first element it is
  applied to; on an empty array it is never applied.
\<close>

definition undefined_toLowerCase :: exn where
  "undefined_toLowerCase =
     Thrown (ErrorObject ''Cannot read properties of undefined (reading 'toLowerCase')'')"

definition matchingAssignments ::
  "runtime \<Rightarrow> string option \<Rightarrow> (Assignment \<times> string) list \<Rightarrow> exn + (Assignment \<times> string) list" where
  "matchingAssignments rt query allAssignments =
     (case query of
        Some q \<Rightarrow> Inr (filter (matches rt q) allAssignments)
      | None \<Rightarrow> (if allAssignments = [] then Inr [] else Inl undefined_toLowerCase))"

text \<open>The first half of \<^verbatim>\<open>searchAssignments\<close>: the array \<^verbatim>\<open>allAssignments\<close>.\<close>

definition allAssignments ::
  "CanvasConfig \<Rightarrow> runtime \<Rightarrow> (Assignment \<times> string) list async" where
  "allAssignments config rt =
     await (makeCanvasRequest config (fetch_courses rt) ActiveCourses)
       (\<lambda>courses. each_course config rt (\<lambda>course. map (\<lambda>a. (a, c_name course))) courses [])"

definition searchAssignments ::
  "CanvasConfig \<Rightarrow> runtime \<Rightarrow> string option \<Rightarrow> tool_result async" where
  "searchAssignments config rt query =
     await (allAssignments config rt)
       (\<lambda>found_all.
          case matchingAssignments rt query found_all of
            Inl e \<Rightarrow> throw e
          | Inr found \<Rightarrow> resolve (SearchText query (map search_summary found)))"

section \<open>The tool registry and the dispatcher\<close>

text \<open>
  A tool as the list-tools handler describes it: name, description, and the input schema
  with its properties (name, type, description, default) and its required names.
\<close>

datatype default_value = DefaultBoolean bool | DefaultNumber number

record property =
  prop_name :: string
  prop_type :: string
  prop_description :: string
  prop_default :: "default_value option"

record Tool =
  tool_name :: string
  tool_description :: string
  properties :: "property list"
  required :: "string list option"

definition listTools :: "Tool list" where
  "listTools =
     [\<lparr>tool_name = ''get_courses'',
       tool_description = ''Get all enrolled courses'',
       properties = [],
       required = None\<rparr>,
      \<lparr>tool_name = ''get_assignments'',
       tool_description = ''Get assignments for a specific course or all courses'',
       properties =
         [\<lparr>prop_name = ''course_id'', prop_type = ''number'',
           prop_description = ''Course ID (optional - if not provided, gets all assignments)'',
           prop_default = None\<rparr>,
          \<lparr>prop_name = ''include_completed'', prop_type = ''boolean'',
           prop_description = ''Include completed assignments (default: false)'',
           prop_default = Some (DefaultBoolean False)\<rparr>],
       required = None\<rparr>,
      \<lparr>tool_name = ''get_upcoming_assignments'',
       tool_description = ''Get upcoming assignments with deadlines'',
       properties =
         [\<lparr>prop_name = ''days_ahead'', prop_type = ''number'',
           prop_description = ''Number of days to look ahead (default: 7)'',
           prop_default = Some (DefaultNumber (Fin 7))\<rparr>],
       required = None\<rparr>,
      \<lparr>tool_name = ''get_grades'',
       tool_description = ''Get grades for a specific course or all courses'',
       properties =
         [\<lparr>prop_name = ''course_id'', prop_type = ''number'',
           prop_description = ''Course ID (optional - if not provided, gets all grades)'',
           prop_default = None\<rparr>],
       required = None\<rparr>,
      \<lparr>tool_name = ''get_course_progress'',
       tool_description = ''Get detailed progress information for a course'',
       properties =
         [\<lparr>prop_name = ''course_id'', prop_type = ''number'',
           prop_description = ''Course ID'',
           prop_default = None\<rparr>],
       required = Some [''course_id'']\<rparr>,
      \<lparr>tool_name = ''search_assignments'',
       tool_description = ''Search for assignments by name or keyword'',
       properties =
         [\<lparr>prop_name = ''query'', prop_type = ''string'',
           prop_description = ''Search query'',
           prop_default = None\<rparr>],
       required = Some [''query'']\<rparr>]"

text \<open>
  The arguments of a call-tool request, with the types the dispatcher's casts give them;
  an absent argument (or an absent argument object) is \<open>None\<close>.
\<close>

record ToolArgs =
  arg_course_id :: "number option"
  arg_include_completed :: "bool option"
  arg_days_ahead :: "number option"
  arg_query :: "string option"

text \<open>\<^verbatim>\<open>(args?.days_ahead as number) || 7\<close>\<close>

fun or_7 :: "number option \<Rightarrow> number" where
  "or_7 None = Fin 7"
| "or_7 (Some n) = (if truthy n then n else Fin 7)"

text \<open>The \<^verbatim>\<open>switch (name)\<close> inside the \<^verbatim>\<open>try\<close> block.\<close>

definition switch_name ::
  "CanvasConfig \<Rightarrow> runtime \<Rightarrow> int \<Rightarrow> string \<Rightarrow> ToolArgs \<Rightarrow> tool_result async" where
  "switch_name config rt now name args =
     (if name = ''get_courses'' then getCourses config rt
      else if name = ''get_assignments''
        then getAssignments config rt now (arg_course_id args) (arg_include_completed args)
      else if name = ''get_upcoming_assignments''
        then getUpcomingAssignments config rt now (or_7 (arg_days_ahead args))
      else if name = ''get_grades'' then getGrades config rt (arg_course_id args)
      else if name = ''get_course_progress'' then getCourseProgress config rt (arg_course_id args)
      else if name = ''search_assignments'' then searchAssignments config rt (arg_query args)
      else throw (McpError MethodNotFound (''Unknown tool: '' @ name)))"

text \<open>The \<^verbatim>\<open>catch\<close> block: what is thrown on for a value caught while executing \<open>name\<close>.\<close>

fun rethrown :: "string \<Rightarrow> exn \<Rightarrow> exn" where
  "rethrown name (McpError code m) = McpError code m"
| "rethrown name (Thrown t) =
     McpError InternalError (''Error executing '' @ name @ '': '' @ message_or_unknown t)"

text \<open>The call-tool handler; \<open>now\<close> is the clock reading a handler takes with \<^verbatim>\<open>new Date()\<close>.\<close>

definition callTool ::
  "CanvasConfig \<Rightarrow> runtime \<Rightarrow> int \<Rightarrow> string \<Rightarrow> ToolArgs \<Rightarrow> tool_result async" where
  "callTool config rt now name args =
     (case switch_name config rt now name args of
        (rs, Inl e) \<Rightarrow> (rs, Inl (rethrown name e))
      | (rs, Inr v) \<Rightarrow> (rs, Inr v))"

subsection \<open>Construction and the program\<close>

text \<open>\<^verbatim>\<open>process.env.X || d\<close>\<close>

fun env_or :: "string option \<Rightarrow> string \<Rightarrow> string" where
  "env_or None d = d"
| "env_or (Some v) d = (if v = [] then d else v)"

text \<open>
  The constructor builds the configuration from the environment and throws when the access
  token is falsy; otherwise it creates the protocol server and registers the two handlers.
  The constructed object is represented by its configuration.
\<close>

definition constructor :: "runtime \<Rightarrow> exn + CanvasConfig" where
  "constructor rt =
     (let config = \<lparr>baseUrl = env_or (process_env rt ''CANVAS_BASE_URL'') CANVAS_BASE_URL,
                    accessToken = env_or (process_env rt ''CANVAS_ACCESS_TOKEN'') []\<rparr>
      in if accessToken config = []
         then Inl (Thrown (ErrorObject ''CANVAS_ACCESS_TOKEN environment variable is required''))
         else Inr config)"

text \<open>
  The requests a host sends once the server runs, and the answers. A call carries the
  clock reading its handler will take.
\<close>

datatype protocol_request = ListToolsRequest | CallToolRequest string ToolArgs int

datatype protocol_response = ToolsListed "Tool list" | ToolReturned tool_result | ToolFailed exn

fun answer :: "CanvasConfig \<Rightarrow> runtime \<Rightarrow> protocol_request \<Rightarrow> request list \<times> protocol_response" where
  "answer config rt ListToolsRequest = ([], ToolsListed listTools)"
| "answer config rt (CallToolRequest name args now) =
     (case callTool config rt now name args of
        (rs, Inl e) \<Rightarrow> (rs, ToolFailed e)
      | (rs, Inr v) \<Rightarrow> (rs, ToolReturned v))"

text \<open>
  The module's top level, \<^verbatim>\<open>const server = new CanvasMCPServer(); server.run()\<close>: the
  network requests issued over the life of the process, and either the value thrown by the
  constructor or the answers to the host's requests.
\<close>

datatype outcome = Crashed exn | Served "protocol_response list"

definition program :: "runtime \<Rightarrow> protocol_request list \<Rightarrow> request list \<times> outcome" where
  "program rt requests =
     (case constructor rt of
        Inl e \<Rightarrow> ([], Crashed e)
      | Inr config \<Rightarrow>
          (let answers = map (answer config rt) requests
           in (concat (map fst answers), Served (map snd answers))))"

section \<open>Notions of the specification\<close>

text \<open>
  The due date of an item: the time its \<^verbatim>\<open>due_at\<close> (or \<^verbatim>\<open>due_date\<close>) string denotes. An item
  whose string is absent, empty or not a date has none.
\<close>

fun due_date :: "runtime \<Rightarrow> string option \<Rightarrow> int option" where
  "due_date rt None = None"
| "due_date rt (Some s) = (if s = [] then None else Date_parse rt s)"

text \<open>The due date has passed: it lies strictly before \<open>now\<close>.\<close>

definition due_date_passed :: "runtime \<Rightarrow> int \<Rightarrow> Assignment \<Rightarrow> bool" where
  "due_date_passed rt now a = (case due_date rt (due_at a) of
       None \<Rightarrow> False
     | Some t \<Rightarrow> t < now)"

text \<open>The due date has not passed yet: it is \<open>now\<close> or later.\<close>

definition due_now_or_later :: "runtime \<Rightarrow> int \<Rightarrow> Assignment \<Rightarrow> bool" where
  "due_now_or_later rt now a = (case due_date rt (due_at a) of
       None \<Rightarrow> False
     | Some t \<Rightarrow> now \<le> t)"

text \<open>A \<^verbatim>\<open>due_at\<close> is well formed when it is \<^verbatim>\<open>null\<close>, empty, or a date the runtime can parse.\<close>

fun timestamp_or_null :: "runtime \<Rightarrow> string option \<Rightarrow> bool" where
  "timestamp_or_null rt None = True"
| "timestamp_or_null rt (Some s) = (s = [] \<or> Date_parse rt s \<noteq> None)"


text \<open>
  The assignments the upstream service returns for a course (none when the request fails).
\<close>

definition assignments_of :: "CanvasConfig \<Rightarrow> runtime \<Rightarrow> Course \<Rightarrow> Assignment list" where
  "assignments_of config rt course =
     (case snd (makeCanvasRequest config (fetch_assignments rt) (CourseAssignments (c_id course))) of
        Inl e \<Rightarrow> []
      | Inr assignments \<Rightarrow> assignments)"

text \<open>One day in milliseconds.\<close>

definition day_ms :: int where
  "day_ms = 86400000"

text \<open>
  The number of days the window of \<^verbatim>\<open>get_upcoming_assignments\<close> extends over: the argument
  \<^verbatim>\<open>days_ahead\<close>, and \<open>7\<close> when the argument is absent, \<open>0\<close> or \<open>NaN\<close>.
\<close>

definition effective_days :: "number option \<Rightarrow> number" where
  "effective_days days_ahead = (case days_ahead of
       None \<Rightarrow> Fin 7
     | Some d \<Rightarrow> if d = NaN \<or> d = Fin 0 then Fin 7 else d)"


section \<open>A sample runtime\<close>

text \<open>
  Lower-casing of ASCII letters, the date parser on the timestamps used below, and an
  upstream service with two courses.
\<close>

definition ascii_lower :: "char \<Rightarrow> char" where
  "ascii_lower c =
     (case map_of (zip ''ABCDEFGHIJKLMNOPQRSTUVWXYZ'' ''abcdefghijklmnopqrstuvwxyz'') c of
        None \<Rightarrow> c
      | Some d \<Rightarrow> d)"

definition sample_parse :: "string \<Rightarrow> int option" where
  "sample_parse = map_of
     [(''2023-12-20T00:00:00Z'', 1703030400000),
      (''2024-01-03T00:00:00Z'', 1704240000000),
      (''2024-01-05T00:00:00Z'', 1704412800000),
      (''2024-01-10T00:00:00Z'', 1704844800000)]"

text \<open>The clock reading \<^verbatim>\<open>2024-01-01T00:00:00Z\<close>.\<close>

definition sample_now :: int where
  "sample_now = 1704067200000"

definition sample_assignment ::
  "rat \<Rightarrow> string \<Rightarrow> string option \<Rightarrow> rat \<Rightarrow> string option \<Rightarrow> Assignment" where
  "sample_assignment n title due course submitted =
     \<lparr>a_id = Fin n, a_name = title, due_at = due, points_possible = Fin 10,
      submission_types = [''online_upload''], course_id = Fin course, html_url = ''https://x/'' @ title,
      submission = Some \<lparr>submitted_at = submitted, score = None, grade = None\<rparr>\<rparr>"

definition sample_course :: Course where
  "sample_course =
     \<lparr>c_id = Fin 1, c_name = ''Algebra'', course_code = ''MATH 1'', enrollment_term_id = Fin 5\<rparr>"

definition sample_courses :: "Course list" where
  "sample_courses =
     [sample_course,
      \<lparr>c_id = Fin 2, c_name = ''Optics'', course_code = ''PHYS 2'', enrollment_term_id = Fin 5\<rparr>]"

definition sample_assignments :: "number \<Rightarrow> Assignment list" where
  "sample_assignments cid =
     (if cid = Fin 1 then
        [sample_assignment 11 ''Homework'' (Some ''2024-01-10T00:00:00Z'') 1 None,
         sample_assignment 12 ''Quiz'' (Some ''2023-12-20T00:00:00Z'') 1
           (Some ''2023-12-19T08:00:00Z''),
         sample_assignment 13 ''Essay'' None 1 None]
      else if cid = Fin 2 then
        [sample_assignment 21 ''Report'' (Some ''2024-01-05T00:00:00Z'') 2
           (Some ''2023-12-30T10:00:00Z''),
         sample_assignment 22 ''Lab'' (Some ''2024-01-03T00:00:00Z'') 2 None]
      else if cid = Fin 3 then
        [sample_assignment 31 ''Project'' (Some ''TBD'') 3 None]
      else [])"

fun sample_fetch_assignments :: "request \<Rightarrow> Assignment list fetched" where
  "sample_fetch_assignments (Request url (CourseAssignments cid) token) =
     Response True 200 ''OK'' (Inr (sample_assignments cid))"
| "sample_fetch_assignments (Request url (CourseAssignmentsSubmission (Some cid)) token) =
     Response True 200 ''OK'' (Inr (sample_assignments cid))"
| "sample_fetch_assignments (Request url ep token) = Response False 404 ''Not Found'' (Inl OtherValue)"

definition sample_runtime :: runtime where
  "sample_runtime =
     \<lparr>process_env = map_of [(''CANVAS_ACCESS_TOKEN'', ''secret'')],
      Date_parse = sample_parse,
      toLowerCase = map ascii_lower,
      fetch_courses = (\<lambda>rq. Response True 200 ''OK'' (Inr sample_courses)),
      fetch_course = (\<lambda>rq. Response True 200 ''OK'' (Inr sample_course)),
      fetch_assignments = sample_fetch_assignments,
      fetch_enrollments = (\<lambda>rq. Response True 200 ''OK'' (Inr [])),
      rejects_first = 0\<rparr>"

definition sample_config :: CanvasConfig where
  "sample_config = \<lparr>baseUrl = CANVAS_BASE_URL, accessToken = ''secret''\<rparr>"

definition no_arguments :: ToolArgs where
  "no_arguments =
     \<lparr>arg_course_id = None, arg_include_completed = None, arg_days_ahead = None,
      arg_query = None\<rparr>"

text \<open>The same runtime with the network down: every \<^verbatim>\<open>fetch\<close> rejects.\<close>

definition offline_runtime :: runtime where
  "offline_runtime = sample_runtime
     \<lparr>fetch_courses := (\<lambda>rq. Rejects (ErrorObject ''fetch failed'')),
      fetch_course := (\<lambda>rq. Rejects (ErrorObject ''fetch failed'')),
      fetch_assignments := (\<lambda>rq. Rejects (ErrorObject ''fetch failed'')),
      fetch_enrollments := (\<lambda>rq. Rejects (ErrorObject ''fetch failed''))\<rparr>"

text \<open>What the handlers return on the sample runtime, at the sample clock reading.\<close>

definition sample_upcoming :: "upcoming_out list" where
  "sample_upcoming =
     [\<lparr>uo_name = ''Lab'', uo_course = ''Optics'', uo_due_date = Some ''2024-01-03T00:00:00Z'',
       uo_days_until_due = Fin 2, uo_points = Fin 10, uo_url = ''https://x/Lab''\<rparr>,
      \<lparr>uo_name = ''Report'', uo_course = ''Optics'', uo_due_date = Some ''2024-01-05T00:00:00Z'',
       uo_days_until_due = Fin 4, uo_points = Fin 10, uo_url = ''https://x/Report''\<rparr>,
      \<lparr>uo_name = ''Homework'', uo_course = ''Algebra'', uo_due_date = Some ''2024-01-10T00:00:00Z'',
       uo_days_until_due = Fin 9, uo_points = Fin 10, uo_url = ''https://x/Homework''\<rparr>]"

definition sample_fetched :: "(Assignment \<times> string option) list" where
  "sample_fetched =
     map (\<lambda>a. (a, Some ''Algebra'')) (sample_assignments (Fin 1)) @
     map (\<lambda>a. (a, Some ''Optics'')) (sample_assignments (Fin 2))"

definition sample_all :: "(Assignment \<times> string) list" where
  "sample_all =
     map (\<lambda>a. (a, ''Algebra'')) (sample_assignments (Fin 1)) @
     map (\<lambda>a. (a, ''Optics'')) (sample_assignments (Fin 2))"

text \<open>
  The upcoming assignments of the next seven days, and of the next three and a half days.
\<close>

definition sample_week :: "upcoming_out list" where
  "sample_week = take 2 sample_upcoming"

definition sample_half_week :: "upcoming_out list" where
  "sample_half_week = take 1 sample_upcoming"




section \<open>Properties of the number model\<close>

subsection \<open>The binary exponent\<close>

lemma quotient_of_pos:
  assumes "0 < x" "quotient_of x = (a, b)"
  shows "0 < a" "0 < b" "x = of_int a / of_int b"
proof -
  show b: "0 < b" using assms(2) quotient_of_denom_pos by blast
  show x: "x = of_int a / of_int b" using assms(2) quotient_of_div by blast
  show "0 < a" using assms(1) b x by (simp add: zero_less_divide_iff)
qed

lemma bitlen_bounds_rat:
  assumes "0 < (a::int)"
  shows "2 powi (bitlen a - 1) \<le> (of_int a :: rat)" "(of_int a :: rat) < 2 powi (bitlen a)"
proof -
  from assms have b1: "1 \<le> bitlen a" by (auto simp: bitlen_alt_def)
  have "2 ^ nat (bitlen a - 1) \<le> a" "a < 2 ^ nat (bitlen a)"
    using bitlen_bounds[OF assms] by auto
  then have "(of_int (2 ^ nat (bitlen a - 1)) :: rat) \<le> of_int a" "(of_int a :: rat) < of_int (2 ^ nat (bitlen a))"
    by (simp_all only: of_int_le_iff of_int_less_iff)
  then show "2 powi (bitlen a - 1) \<le> (of_int a :: rat)" "(of_int a :: rat) < 2 powi (bitlen a)"
    using b1 by (simp_all add: power_int_def)
qed

lemma flog2_bounds:
  assumes "0 < x"
  shows "2 powi (flog2 x) \<le> x" "x < 2 powi (flog2 x + 1)"
proof -
  obtain a b where q: "quotient_of x = (a, b)" by (cases "quotient_of x")
  note p = quotient_of_pos[OF assms q]
  define d where "d = bitlen a - bitlen b"
  have a1: "2 powi (bitlen a - 1) \<le> (of_int a :: rat)" and a2: "(of_int a :: rat) < 2 powi (bitlen a)"
    using bitlen_bounds_rat[OF p(1)] by auto
  have b1: "2 powi (bitlen b - 1) \<le> (of_int b :: rat)" and b2: "(of_int b :: rat) < 2 powi (bitlen b)"
    using bitlen_bounds_rat[OF p(2)] by auto
  have bpos: "(0::rat) < of_int b" using p(2) by simp
  have apos: "(0::rat) < of_int a" using p(1) by simp
  have up: "x < 2 powi (d + 1)"
  proof -
    have "of_int a * 2 powi (bitlen b - 1) < (2 powi (bitlen a) :: rat) * of_int b"
    proof -
      have "of_int a * 2 powi (bitlen b - 1) \<le> (of_int a :: rat) * of_int b"
        using b1 apos by (simp add: mult_left_mono)
      also have "\<dots> < 2 powi (bitlen a) * of_int b"
        using a2 bpos by (simp add: mult_strict_right_mono)
      finally show ?thesis .
    qed
    then have "of_int a / of_int b < (2 powi (bitlen a) :: rat) / 2 powi (bitlen b - 1)"
      using bpos by (simp add: field_simps)
    also have "\<dots> = 2 powi (d + 1)"
      by (simp add: d_def power_int_diff[symmetric] algebra_simps)
    finally show ?thesis using p(3) by simp
  qed
  have lo: "2 powi (d - 1) \<le> x"
  proof -
    have "2 powi (bitlen a - 1) * of_int b \<le> (of_int a :: rat) * 2 powi (bitlen b)"
    proof -
      have "2 powi (bitlen a - 1) * of_int b \<le> (of_int a :: rat) * of_int b"
        using a1 bpos by (simp add: mult_right_mono)
      also have "\<dots> \<le> of_int a * 2 powi (bitlen b)"
        using b2 apos by (simp add: mult_left_mono)
      finally show ?thesis .
    qed
    then have "(2 powi (bitlen a - 1) :: rat) / 2 powi (bitlen b) \<le> of_int a / of_int b"
      using bpos by (simp add: field_simps)
    moreover have "(2 powi (bitlen a - 1) :: rat) / 2 powi (bitlen b) = 2 powi (d - 1)"
      by (simp add: d_def power_int_diff[symmetric] algebra_simps)
    ultimately show ?thesis using p(3) by simp
  qed
  have f: "flog2 x = (if 2 powi d \<le> x then d else d - 1)"
    by (simp add: flog2_def q d_def Let_def)
  show "2 powi (flog2 x) \<le> x" using f lo by auto
  show "x < 2 powi (flog2 x + 1)" using f up by (auto simp: not_le)
qed

lemma pow2_le_iff: "(2::rat) powi a \<le> 2 powi b \<longleftrightarrow> a \<le> b"
proof
  assume h: "(2::rat) powi a \<le> 2 powi b"
  show "a \<le> b"
  proof (rule ccontr)
    assume "\<not> a \<le> b"
    then have "b < a" by simp
    then have "(2::rat) powi b < 2 powi a" by (rule power_int_strict_increasing) simp
    with h show False by simp
  qed
next
  assume "a \<le> b"
  then show "(2::rat) powi a \<le> 2 powi b" by (rule power_int_increasing) simp
qed

lemma pow2_less_iff: "(2::rat) powi a < 2 powi b \<longleftrightarrow> a < b"
  using pow2_le_iff[of b a] by (auto simp: not_le[symmetric])

lemma flog2_eqI:
  assumes "0 < x" "2 powi e \<le> x" "x < 2 powi (e + 1)"
  shows "flog2 x = e"
proof -
  note b = flog2_bounds[OF assms(1)]
  have "(2::rat) powi e < 2 powi (flog2 x + 1)" using assms(2) b(2) by simp
  then have 1: "e < flog2 x + 1" by (simp only: pow2_less_iff)
  have "(2::rat) powi (flog2 x) < 2 powi (e + 1)" using assms(3) b(1) by simp
  then have 2: "flog2 x < e + 1" by (simp only: pow2_less_iff)
  from 1 2 show ?thesis by simp
qed


lemma rne_cases: "rne m = \<lfloor>m\<rfloor> \<or> rne m = \<lfloor>m\<rfloor> + 1"
  by (simp add: rne_def Let_def)

lemma rne_of_int: "rne (of_int k) = k"
  by (simp add: rne_def)

lemma rne_ge: "of_int K \<le> m \<Longrightarrow> K \<le> rne m"
proof -
  assume "of_int K \<le> m"
  then have "K \<le> \<lfloor>m\<rfloor>" by (simp add: le_floor_iff)
  then show ?thesis using rne_cases[of m] by auto
qed

lemma rne_le: "m \<le> of_int K \<Longrightarrow> rne m \<le> K"
proof (cases "m = of_int K")
  case True
  then show ?thesis by (simp add: rne_of_int)
next
  case False
  assume "m \<le> of_int K"
  with False have "m < of_int K" by simp
  then have "\<lfloor>m\<rfloor> < K" by (simp add: floor_less_iff)
  then show ?thesis using rne_cases[of m] by auto
qed

lemma pow2_neg_int: "q \<le> 0 \<Longrightarrow> (1::rat) / 2 powi q = of_int (2 ^ nat (- q))"
  by (simp add: power_int_def field_simps)

lemma rnd_mag_nonneg: "0 \<le> x \<Longrightarrow> 0 \<le> rnd_mag x"
proof -
  assume "0 \<le> x"
  then have "of_int 0 \<le> x / 2 powi quantum x" by simp
  then have "0 \<le> rne (x / 2 powi quantum x)" by (rule rne_ge)
  then show ?thesis by (simp add: rnd_mag_def)
qed

lemma rnd_mag_le:
  assumes "x \<le> of_int K" "quantum x \<le> 0"
  shows "rnd_mag x \<le> of_int K"
proof -
  define q where "q = quantum x"
  have qp: "(0::rat) < 2 powi q" by simp
  have "x / 2 powi q \<le> of_int K / 2 powi q"
    using assms(1) qp by (simp add: divide_right_mono)
  also have "\<dots> = of_int (K * 2 ^ nat (- q))"
    using assms(2) pow2_neg_int[of q] by (simp add: q_def divide_inverse)
  finally have "rne (x / 2 powi q) \<le> K * 2 ^ nat (- q)" by (rule rne_le)
  then have "(of_int (rne (x / 2 powi q)) :: rat) \<le> of_int (K * 2 ^ nat (- q))"
    by (simp only: of_int_le_iff)
  then have "of_int (rne (x / 2 powi q)) * 2 powi q \<le> (of_int (K * 2 ^ nat (- q)) :: rat) * 2 powi q"
    using qp by (simp add: mult_right_mono)
  also have "(of_int (K * 2 ^ nat (- q)) :: rat) * 2 powi q = of_int K"
    using assms(2) by (simp add: q_def power_int_def field_simps)
  finally show ?thesis by (simp add: rnd_mag_def q_def)
qed

lemma flog2_less:
  assumes "0 < x" "x < 2 powi e"
  shows "flog2 x < e"
proof -
  have "(2::rat) powi (flog2 x) < 2 powi e"
    using flog2_bounds(1)[OF assms(1)] assms(2) by simp
  then show ?thesis by (simp only: pow2_less_iff)
qed

lemma flog2_ge:
  assumes "0 < x" "2 powi e \<le> x"
  shows "e \<le> flog2 x"
proof -
  have "(2::rat) powi e < 2 powi (flog2 x + 1)"
    using flog2_bounds(2)[OF assms(1)] assms(2) by simp
  then have "e < flog2 x + 1" by (simp only: pow2_less_iff)
  then show ?thesis by simp
qed

lemma quantum_le_0:
  assumes "0 < x" "x < 2 ^ 53"
  shows "quantum x \<le> 0"
proof -
  have "x < 2 powi 53" using assms(2) by simp
  then have "flog2 x < 53" by (rule flog2_less[OF assms(1)])
  then show ?thesis by (simp add: quantum_def)
qed

lemma rnd_mag_exact:
  assumes "0 < k" "k < 2 ^ 53" "- 1074 \<le> q"
  shows "rnd_mag (of_int k * 2 powi q) = of_int k * 2 powi q"
proof -
  define x :: rat where "x = of_int k * 2 powi q"
  define qx where "qx = quantum x"
  have xpos: "0 < x" using assms(1) by (simp add: x_def)
  have "(of_int k :: rat) < of_int (2 ^ 53)" using assms(2) by (simp only: of_int_less_iff)
  then have "x < 2 ^ 53 * 2 powi q" by (simp add: x_def)
  also have "\<dots> = 2 powi (53 + q)" by (simp add: power_int_add)
  finally have "flog2 x < 53 + q" by (rule flog2_less[OF xpos])
  then have qq: "qx \<le> q" using assms(3) by (simp add: quantum_def qx_def)
  define n where "n = nat (q - qx)"
  have e: "(2::rat) powi q = 2 ^ n * 2 powi qx"
  proof -
    have "(2::rat) powi q = 2 powi (int n + qx)" using qq by (simp add: n_def)
    also have "\<dots> = 2 powi (int n) * 2 powi qx" by (rule power_int_add) simp
    finally show ?thesis by simp
  qed
  have "x = of_int (k * 2 ^ n) * 2 powi qx"
    by (simp add: x_def e)
  then have m: "x / 2 powi qx = of_int (k * 2 ^ n)" by simp
  have "rnd_mag x = of_int (rne (x / 2 powi qx)) * 2 powi qx"
    by (simp add: rnd_mag_def qx_def)
  also have "\<dots> = of_int (k * 2 ^ n) * 2 powi qx" by (simp only: m rne_of_int)
  also have "\<dots> = x" by (simp add: x_def e)
  finally show ?thesis by (simp add: x_def)
qed

lemma rnd_mag_pos:
  assumes "1 \<le> x"
  shows "0 < rnd_mag x"
proof -
  have xpos: "0 < x" using assms by simp
  have "2 powi 0 \<le> x" using assms by simp
  then have f0: "0 \<le> flog2 x" by (rule flog2_ge[OF xpos])
  then have q: "quantum x \<le> flog2 x" by (simp add: quantum_def)
  then have "(2::rat) powi quantum x \<le> 2 powi flog2 x" by (simp only: pow2_le_iff)
  then have "2 powi quantum x \<le> x"
    using flog2_bounds(1)[OF xpos] by simp
  then have "of_int 1 \<le> x / 2 powi quantum x"
    by (simp add: pos_le_divide_eq)
  then have "1 \<le> rne (x / 2 powi quantum x)" by (rule rne_ge)
  then have "(0::rat) < of_int (rne (x / 2 powi quantum x))" by simp
  then show ?thesis by (simp add: rnd_mag_def)
qed


lemma round64_pos:
  assumes "0 < x"
  shows "round64 x = (if 2 ^ 1024 \<le> rnd_mag x then PInf else Fin (rnd_mag x))"
  using assms by (simp add: round64_def Let_def)

lemma round64_neg:
  assumes "x < 0"
  shows "round64 x = (if 2 ^ 1024 \<le> rnd_mag (- x) then NInf else Fin (- rnd_mag (- x)))"
  using assms by (simp add: round64_def Let_def abs_if)

lemma round64_exact:
  assumes "\<bar>k\<bar> < 2 ^ 53" "- 1074 \<le> q" "\<bar>of_int k * 2 powi q\<bar> < (2 ^ 1024 :: rat)"
  shows "round64 (of_int k * 2 powi q) = Fin (of_int k * 2 powi q)"
proof -
  consider "k = 0" | "0 < k" | "k < 0" by linarith
  then show ?thesis
  proof cases
    case 1
    then show ?thesis by (simp add: round64_def)
  next
    case 2
    then have x: "(0::rat) < of_int k * 2 powi q" by simp
    have r: "rnd_mag (of_int k * 2 powi q) = of_int k * 2 powi q"
      using 2 assms(1,2) by (intro rnd_mag_exact) auto
    show ?thesis using assms(3) x by (simp only: round64_pos[OF x] r) simp
  next
    case 3
    then have x: "of_int k * 2 powi q < (0::rat)" by (simp add: mult_neg_pos)
    have "rnd_mag (of_int (- k) * 2 powi q) = of_int (- k) * 2 powi q"
      using 3 assms(1,2) by (intro rnd_mag_exact) auto
    then have r: "rnd_mag (- (of_int k * 2 powi q)) = - (of_int k * 2 powi q)" by simp
    show ?thesis using assms(3) x by (simp only: round64_neg[OF x] r) simp
  qed
qed

lemma round64_int:
  assumes "\<bar>k\<bar> < 2 ^ 53"
  shows "round64 (of_int k) = Fin (of_int k)"
proof -
  have "\<bar>k\<bar> < 2 ^ 1024" using assms by simp
  then have "(of_int \<bar>k\<bar> :: rat) < of_int (2 ^ 1024)" by (simp only: of_int_less_iff)
  then have "\<bar>of_int k * 2 powi 0\<bar> < (2 ^ 1024 :: rat)" by simp
  with round64_exact[OF assms, of 0] show ?thesis by simp
qed

lemma positive_round64_int: "positive (round64 (of_int d)) \<longleftrightarrow> 0 < d"
proof -
  consider "d = 0" | "0 < d" | "d < 0" by linarith
  then show ?thesis
  proof cases
    case 1
    then show ?thesis by (simp add: round64_def)
  next
    case 2
    then have x: "(0::rat) < of_int d" by simp
    have "(1::rat) \<le> of_int d" using 2 by simp
    then have "0 < rnd_mag (of_int d)" by (rule rnd_mag_pos)
    then show ?thesis using 2 by (simp add: round64_pos[OF x])
  next
    case 3
    then have x: "(of_int d :: rat) < 0" by simp
    have "0 \<le> rnd_mag (- of_int d)" using 3 by (intro rnd_mag_nonneg) simp
    then show ?thesis using 3 by (simp add: round64_neg[OF x])
  qed
qed

lemma round64_bounded:
  assumes "0 \<le> x" "x \<le> of_int K" "K < 2 ^ 53"
  shows "\<exists>y. round64 x = Fin y \<and> 0 \<le> y \<and> y \<le> of_int K"
proof (cases "x = 0")
  case True
  then show ?thesis using assms(2) by (simp add: round64_def)
next
  case False
  then have x: "0 < x" using assms(1) by simp
  have "(of_int K :: rat) < of_int (2 ^ 53)" using assms(3) by (simp only: of_int_less_iff)
  then have "x < 2 ^ 53" using assms(2) by simp
  then have "quantum x \<le> 0" by (rule quantum_le_0[OF x])
  then have u: "rnd_mag x \<le> of_int K" by (rule rnd_mag_le[OF assms(2)])
  have "(of_int K :: rat) < of_int (2 ^ 1024)" using assms(3) by (simp only: of_int_less_iff) simp
  then have "rnd_mag x < 2 ^ 1024" using u by simp
  then have "round64 x = Fin (rnd_mag x)" by (simp add: round64_pos[OF x])
  then show ?thesis using u rnd_mag_nonneg[OF assms(1)] by simp
qed

lemma Math_round_bounded:
  assumes "0 \<le> y" "y \<le> of_int K"
  shows "\<exists>k. Math_round (Fin y) = Fin (of_int k) \<and> 0 \<le> k \<and> k \<le> K"
proof -
  have "0 \<le> \<lfloor>y + 1 / 2\<rfloor>" using assms(1) by simp
  moreover have "y + 1 / 2 < of_int (K + 1)" using assms(2) by simp
  then have "\<lfloor>y + 1 / 2\<rfloor> < K + 1" by (simp only: floor_less_iff)
  ultimately show ?thesis by simp
qed

lemma percentage_range:
  assumes "c \<le> t" "0 < t"
  shows "\<exists>k. Math_round (js_mul (js_div (Fin (of_nat c)) (Fin (of_nat t))) (Fin 100)) = Fin (of_int k)
            \<and> 0 \<le> k \<and> k \<le> 100"
proof -
  have "(0::rat) \<le> of_nat c / of_nat t" by simp
  moreover have "(of_nat c :: rat) / of_nat t \<le> of_int 1" using assms by simp
  ultimately obtain y where y: "round64 (of_nat c / of_nat t) = Fin y" "0 \<le> y" "y \<le> 1"
    using round64_bounded[of "of_nat c / of_nat t" 1] by auto
  have "0 \<le> y * 100" "y * 100 \<le> of_int 100" using y(2,3) by simp_all
  then obtain z where z: "round64 (y * 100) = Fin z" "0 \<le> z" "z \<le> of_int 100"
    using round64_bounded[of "y * 100" 100] by auto
  have "js_mul (js_div (Fin (of_nat c)) (Fin (of_nat t))) (Fin 100) = Fin z"
    using assms(2) y(1) z(1) by simp
  then show ?thesis using Math_round_bounded[OF z(2,3)] by simp
qed

subsection \<open>The rounding error\<close>

text \<open>
  A binary64 result differs from the exact one by at most the fraction \<open>1 / 2 ^ 53\<close> of its
  magnitude, or by half the spacing of the subnormal range.
\<close>

lemma rne_error: "\<bar>of_int (rne m) - m\<bar> \<le> 1 / 2"
proof -
  have "of_int \<lfloor>m\<rfloor> \<le> m" "m < of_int \<lfloor>m\<rfloor> + 1" by linarith+
  then show ?thesis by (auto simp: rne_def Let_def)
qed

lemma pow2_quantum_le:
  assumes "0 < x"
  shows "2 powi quantum x \<le> x / 2 ^ 52 + 1 / 2 ^ 1074"
proof (cases "- 1074 \<le> flog2 x - 52")
  case True
  then have q: "quantum x = flog2 x - 52" by (simp add: quantum_def)
  have "(2::rat) powi (flog2 x - 52) = 2 powi flog2 x / 2 powi 52"
    by (rule power_int_diff) simp
  also have "\<dots> \<le> x / 2 powi 52"
    using flog2_bounds(1)[OF assms] by (simp add: divide_right_mono)
  finally have "2 powi quantum x \<le> x / 2 ^ 52" by (simp add: q)
  then show ?thesis by (simp add: add_increasing2)
next
  case False
  then have q: "quantum x = - 1074" by (simp add: quantum_def)
  have "(2::rat) powi quantum x = 1 / 2 ^ 1074" by (simp add: q power_int_minus_divide)
  moreover have "0 \<le> x / 2 ^ 52" using assms by simp
  ultimately show ?thesis by linarith
qed

lemma rnd_mag_error:
  assumes "0 < x"
  shows "\<bar>rnd_mag x - x\<bar> \<le> x / 2 ^ 53 + 1 / 2 ^ 1075"
proof -
  define q where "q = quantum x"
  define P :: rat where "P = 2 powi q"
  have Ppos: "0 < P" by (simp add: P_def)
  define m where "m = x / P"
  have r: "rnd_mag x = of_int (rne m) * P"
    by (simp add: rnd_mag_def q_def P_def m_def)
  have "rnd_mag x - x = (of_int (rne m) - m) * P"
    unfolding r m_def using Ppos by (simp add: field_simps)
  then have "\<bar>rnd_mag x - x\<bar> = \<bar>of_int (rne m) - m\<bar> * P"
    using Ppos by (simp add: abs_mult)
  also have "\<dots> \<le> 1 / 2 * P"
    using rne_error[of m] Ppos by (simp add: mult_right_mono)
  also have "\<dots> \<le> 1 / 2 * (x / 2 ^ 52 + 1 / 2 ^ 1074)"
    using pow2_quantum_le[OF assms] by (simp add: P_def q_def)
  also have "\<dots> = x / 2 ^ 53 + 1 / 2 ^ 1075" by simp
  finally show ?thesis .
qed

lemma round64_error:
  assumes "round64 x = Fin y"
  shows "\<bar>y - x\<bar> \<le> \<bar>x\<bar> / 2 ^ 53 + 1 / 2 ^ 1075"
proof -
  consider "x = 0" | "0 < x" | "x < 0" by linarith
  then show ?thesis
  proof cases
    case 1
    then show ?thesis using assms by (simp add: round64_def)
  next
    case 2
    then have "y = rnd_mag x" using assms by (simp add: round64_pos split: if_splits)
    then show ?thesis using rnd_mag_error[OF 2] 2 by simp
  next
    case 3
    then have "y = - rnd_mag (- x)" using assms by (simp add: round64_neg split: if_splits)
    moreover have "\<bar>rnd_mag (- x) - (- x)\<bar> \<le> (- x) / 2 ^ 53 + 1 / 2 ^ 1075"
      using 3 by (intro rnd_mag_error) simp
    ultimately show ?thesis using 3 by (simp add: abs_if split: if_splits)
  qed
qed

text \<open>
  One rounding seen from its result: a bound on the result bounds the exact value and the
  error.
\<close>

lemma rounding_step:
  fixes a b B e :: rat
  assumes "\<bar>b - a\<bar> \<le> \<bar>a\<bar> / 9007199254740992 + e" "\<bar>b\<bar> \<le> B" "B \<le> 17280000000000008"
    "e \<le> 1 / 1000000"
  shows "\<bar>a\<bar> \<le> B + 2 \<and> \<bar>b - a\<bar> \<le> 48 / 25"
  using assms by (simp add: abs_if split: if_splits)

lemma rounding_step_sum:
  fixes a b e :: rat
  assumes "\<bar>b - a\<bar> \<le> \<bar>a\<bar> / 9007199254740992 + e" "\<bar>b\<bar> \<le> 8640000000000000"
    "e \<le> 1 / 1000000"
  shows "\<bar>a\<bar> \<le> 8640000000000001 \<and> \<bar>b - a\<bar> \<le> 24 / 25"
  using assms by (simp add: abs_if split: if_splits)




section \<open>Properties of the handlers' building blocks\<close>

lemma snd_await:
  "snd (await m f) = (case snd m of Inl e \<Rightarrow> Inl e | Inr v \<Rightarrow> snd (f v))"
  by (cases m) (auto simp: await_def split: sum.splits prod.splits)

lemma snd_await_Inr:
  assumes "snd (await m f) = Inr r"
  obtains v where "snd m = Inr v" "snd (f v) = Inr r"
  using assms by (auto simp: snd_await split: sum.splits)

lemma snd_resolve [simp]: "snd (resolve v) = Inr v"
  by (simp add: resolve_def)

lemma each_course_all:
  assumes "snd (each_course config rt items courses acc) = Inr out"
    and "\<forall>x\<in>set acc. P x"
    and "\<And>course assignments. \<forall>x\<in>set (items course assignments). P x"
  shows "\<forall>x\<in>set out. P x"
  using assms(1,2)
proof (induction courses arbitrary: acc)
  case Nil
  then show ?case by simp
next
  case (Cons course rest)
  obtain rs r where m: "makeCanvasRequest config (fetch_assignments rt)
      (CourseAssignments (c_id course)) = (rs, r)" by (cases "makeCanvasRequest config (fetch_assignments rt)
      (CourseAssignments (c_id course))")
  show ?case
  proof (cases r)
    case (Inl e)
    with Cons.prems(1) m show ?thesis by simp
  next
    case (Inr assignments)
    have "snd (each_course config rt items rest (acc @ items course assignments)) = Inr out"
      using Cons.prems(1) m Inr by (simp split: prod.splits)
    moreover have "\<forall>x\<in>set (acc @ items course assignments). P x"
      using Cons.prems(2) assms(3)[of course assignments] by auto
    ultimately show ?thesis by (rule Cons.IH)
  qed
qed

lemma set_insert_by: "set (insert_by cmp x ys) = insert x (set ys)"
  by (induction ys) auto

lemma set_sort_by: "set (sort_by cmp xs) = set xs"
  by (induction xs) (simp_all add: sort_by_def set_insert_by)

lemma sorted_insert_by:
  assumes "\<forall>y\<in>set ys. positive (cmp x y) \<longleftrightarrow> key y < key x"
    and "sorted_wrt (\<lambda>a b. key a \<le> (key b :: int)) ys"
  shows "sorted_wrt (\<lambda>a b. key a \<le> key b) (insert_by cmp x ys)"
  using assms
proof (induction ys)
  case Nil
  then show ?case by simp
next
  case (Cons y ys)
  show ?case
  proof (cases "positive (cmp x y)")
    case True
    then have "key y < key x" using Cons.prems(1) by simp
    moreover have "sorted_wrt (\<lambda>a b. key a \<le> key b) (insert_by cmp x ys)"
      using Cons by simp
    ultimately show ?thesis using True Cons.prems(2) by (auto simp: set_insert_by)
  next
    case False
    then have "key x \<le> key y" using Cons.prems(1) by simp
    then show ?thesis using False Cons.prems(2) by auto
  qed
qed

lemma sorted_sort_by:
  assumes "\<forall>x\<in>set xs. \<forall>y\<in>set xs. positive (cmp x y) \<longleftrightarrow> key y < key x"
  shows "sorted_wrt (\<lambda>a b. key a \<le> (key b :: int)) (sort_by cmp xs)"
  using assms
proof (induction xs)
  case Nil
  then show ?case by (simp add: sort_by_def)
next
  case (Cons x xs)
  have s: "sort_by cmp (x # xs) = insert_by cmp x (sort_by cmp xs)"
    by (simp add: sort_by_def)
  have "sorted_wrt (\<lambda>a b. key a \<le> key b) (sort_by cmp xs)"
    using Cons by simp
  moreover have "\<forall>y\<in>set (sort_by cmp xs). positive (cmp x y) \<longleftrightarrow> key y < key x"
    using Cons.prems by (simp add: set_sort_by)
  ultimately show ?case unfolding s by (intro sorted_insert_by) auto
qed

lemma is_upcoming_iff:
  "is_upcoming rt now cutoff a \<longleftrightarrow>
     (\<exists>t c. due_date rt (due_at a) = Some t \<and> cutoff = Some c \<and> now \<le> t \<and> t \<le> c)"
proof (cases "due_at a")
  case None
  then show ?thesis by (simp add: is_upcoming_def)
next
  case (Some s)
  show ?thesis
  proof (cases "s = []")
    case True
    with Some show ?thesis by (simp add: is_upcoming_def)
  next
    case False
    show ?thesis
      using Some False
      by (cases "Date_parse rt s"; cases cutoff)
         (simp_all add: is_upcoming_def Date_ge_def Date_le_def js_ge_def Let_def)
  qed
qed

lemma js_sub_times: "js_sub (getTime (Some t)) (getTime (Some u)) = round64 (of_int (t - u))"
  by (simp add: js_sub_def)

lemma by_due_at_positive:
  assumes "due_date rt (due_at (fst a)) = Some t" "due_date rt (due_at (fst b)) = Some u"
  shows "positive (by_due_at rt a b) \<longleftrightarrow> u < t"
proof -
  have "new_Date_value (Date_parse rt) (due_at (fst a)) = Some t"
    using assms(1) by (cases "due_at (fst a)") (auto split: if_splits)
  moreover have "new_Date_value (Date_parse rt) (due_at (fst b)) = Some u"
    using assms(2) by (cases "due_at (fst b)") (auto split: if_splits)
  ultimately have "by_due_at rt a b = round64 (of_int (t - u))"
    by (simp only: by_due_at_def js_sub_times)
  then show ?thesis by (simp only: positive_round64_int) simp
qed

lemma js_mul_int:
  assumes "\<bar>k * j\<bar> < 2 ^ 53"
  shows "js_mul (Fin (of_int k)) (Fin (of_int j)) = Fin (of_int (k * j))"
proof -
  have "js_mul (Fin (of_int k)) (Fin (of_int j)) = round64 (of_int (k * j))" by simp
  then show ?thesis by (simp only: round64_int[OF assms])
qed

lemma whole_days_product:
  assumes "\<bar>n * day_ms\<bar> < 2 ^ 53"
  shows "js_mul (js_mul (js_mul (js_mul (Fin (of_int n)) (Fin 24)) (Fin 60)) (Fin 60)) (Fin 1000) =
         Fin (of_int (n * day_ms))"
proof -
  have b: "\<bar>n\<bar> * 86400000 < 2 ^ 53" using assms by (simp add: day_ms_def abs_mult)
  have 1: "js_mul (Fin (of_int n)) (Fin 24) = Fin (of_int (n * 24))"
    using js_mul_int[of n 24] b by (simp add: abs_mult)
  have 2: "js_mul (Fin (of_int (n * 24))) (Fin 60) = Fin (of_int (n * 24 * 60))"
    using js_mul_int[of "n * 24" 60] b by (simp add: abs_mult)
  have 3: "js_mul (Fin (of_int (n * 24 * 60))) (Fin 60) = Fin (of_int (n * 24 * 60 * 60))"
    using js_mul_int[of "n * 24 * 60" 60] b by (simp add: abs_mult)
  have 4: "js_mul (Fin (of_int (n * 24 * 60 * 60))) (Fin 1000) = Fin (of_int (n * day_ms))"
    using js_mul_int[of "n * 24 * 60 * 60" 1000] b by (simp add: abs_mult day_ms_def)
  show ?thesis by (simp only: 1 2 3 4)
qed

lemma cutoffDate_whole_days:
  assumes "\<bar>n * day_ms\<bar> < 2 ^ 53" "\<bar>now + n * day_ms\<bar> \<le> 8640000000000000"
  shows "cutoffDate now (Fin (of_int n)) = Some (now + n * day_ms)"
proof -
  have s: "\<bar>now + n * day_ms\<bar> < 2 ^ 53" using assms(2) by simp
  have 5: "js_add (getTime (Some now)) (Fin (of_int (n * day_ms))) = Fin (of_int (now + n * day_ms))"
  proof -
    have "js_add (getTime (Some now)) (Fin (of_int (n * day_ms))) = round64 (of_int (now + n * day_ms))"
      by simp
    then show ?thesis by (simp only: round64_int[OF s])
  qed
  have "(of_int \<bar>now + n * day_ms\<bar> :: rat) \<le> of_int 8640000000000000"
    using assms(2) by (simp only: of_int_le_iff)
  then have 6: "\<bar>of_int (now + n * day_ms) :: rat\<bar> \<le> 8640000000000000" by simp
  have "cutoffDate now (Fin (of_int n)) = new_Date_number (Fin (of_int (now + n * day_ms)))"
    by (simp only: cutoffDate_def whole_days_product[OF assms(1)] 5)
  also have "\<dots> = Some (now + n * day_ms)"
    using 6 by (simp add: trunc_zero_def del: of_int_add of_int_mult)
  finally show ?thesis .
qed

text \<open>
  What a valid cut-off date tells about the computation: \<^verbatim>\<open>daysAhead\<close> is finite, so is every
  intermediate product and the sum, and the sum lies in the range of time values.
\<close>

lemma js_mul_Fin_D:
  assumes "js_mul x (Fin k) = Fin p"
  shows "\<exists>a. x = Fin a \<and> round64 (a * k) = Fin p"
  using assms by (cases x) (auto simp: signed_inf_def split: if_splits)

lemma js_add_Fin_D:
  assumes "js_add (Fin a) y = Fin s"
  shows "\<exists>p. y = Fin p \<and> round64 (a + p) = Fin s"
  using assms by (cases y) auto

lemma new_Date_number_D:
  assumes "new_Date_number x = Some c"
  shows "\<exists>s. x = Fin s \<and> \<bar>s\<bar> \<le> 8640000000000000 \<and> c = trunc_zero s"
  using assms by (cases x) (auto split: if_splits)

lemma trunc_zero_error: "\<bar>of_int (trunc_zero s) - s\<bar> < 1"
  unfolding trunc_zero_def by (auto simp: abs_if) linarith+

lemma cutoffDate_D:
  assumes "cutoffDate now d = Some c"
  shows "\<exists>r p1 p2 p3 p4 s. d = Fin r \<and> round64 (r * 24) = Fin p1 \<and> round64 (p1 * 60) = Fin p2 \<and>
           round64 (p2 * 60) = Fin p3 \<and> round64 (p3 * 1000) = Fin p4 \<and>
           round64 (of_int now + p4) = Fin s \<and> \<bar>s\<bar> \<le> 8640000000000000 \<and> c = trunc_zero s"
proof -
  from assms obtain s where
    s: "js_add (getTime (Some now))
          (js_mul (js_mul (js_mul (js_mul d (Fin 24)) (Fin 60)) (Fin 60)) (Fin 1000)) = Fin s"
       "\<bar>s\<bar> \<le> 8640000000000000" "c = trunc_zero s"
    unfolding cutoffDate_def using new_Date_number_D by blast
  from s(1) obtain p4 where
    p4: "js_mul (js_mul (js_mul (js_mul d (Fin 24)) (Fin 60)) (Fin 60)) (Fin 1000) = Fin p4"
        "round64 (of_int now + p4) = Fin s"
    using js_add_Fin_D[of "of_int now"] by auto
  from p4(1) obtain p3 where
    p3: "js_mul (js_mul (js_mul d (Fin 24)) (Fin 60)) (Fin 60) = Fin p3"
        "round64 (p3 * 1000) = Fin p4"
    using js_mul_Fin_D by blast
  from p3(1) obtain p2 where
    p2: "js_mul (js_mul d (Fin 24)) (Fin 60) = Fin p2" "round64 (p2 * 60) = Fin p3"
    using js_mul_Fin_D by blast
  from p2(1) obtain p1 where
    p1: "js_mul d (Fin 24) = Fin p1" "round64 (p1 * 60) = Fin p2"
    using js_mul_Fin_D by blast
  from p1(1) obtain r where r: "d = Fin r" "round64 (r * 24) = Fin p1"
    using js_mul_Fin_D by blast
  show ?thesis using r p1(2) p2(2) p3(2) p4(2) s(2,3) by blast
qed

text \<open>
  For a whole number of days a valid cut-off is exactly that many days after \<open>now\<close>.
\<close>

lemma cutoffDate_whole_days_valid:
  assumes "cutoffDate now (Fin (of_int n)) = Some c" "\<bar>n * day_ms\<bar> < 2 ^ 53"
  shows "c = now + n * day_ms"
proof -
  define z where "z = now + n * day_ms"
  have "new_Date_number (js_add (getTime (Some now)) (Fin (of_int (n * day_ms)))) = Some c"
    using assms(1) by (simp only: cutoffDate_def whole_days_product[OF assms(2)])
  then have "new_Date_number (round64 (of_int z)) = Some c" by (simp add: z_def)
  then obtain s where s: "round64 (of_int z) = Fin s" "\<bar>s\<bar> \<le> 8640000000000000"
    using new_Date_number_D by blast
  have a: "\<bar>s - of_int z\<bar> \<le> \<bar>of_int z\<bar> / 9007199254740992 + 1 / 2 ^ 1075"
    using round64_error[OF s(1)] by simp
  have "\<bar>of_int z :: rat\<bar> \<le> 8640000000000001 \<and> \<bar>s - of_int z\<bar> \<le> 24 / 25"
    by (rule rounding_step_sum[OF a s(2)]) simp
  then have "\<bar>of_int z :: rat\<bar> < 8640000000000001" using s(2) by linarith
  then have "(of_int \<bar>z\<bar> :: rat) < of_int 8640000000000001" by simp
  then have "\<bar>z\<bar> < 8640000000000001" by (simp only: of_int_less_iff)
  then have "\<bar>now + n * day_ms\<bar> \<le> 8640000000000000" by (simp add: z_def)
  then have "cutoffDate now (Fin (of_int n)) = Some (now + n * day_ms)"
    by (rule cutoffDate_whole_days[OF assms(2)])
  then show ?thesis using assms(1) by simp
qed

text \<open>
  For any number \<open>r\<close> of days a valid cut-off is within ten milliseconds of \<open>now\<close> plus \<open>r\<close>
  days: each of the four products and the sum is rounded once, each rounding moves the value
  by less than two milliseconds, and the time value is truncated to a whole millisecond.
\<close>

lemma cutoffDate_close:
  assumes "cutoffDate now (Fin r) = Some c" "\<bar>now\<bar> \<le> 8640000000000000"
  shows "\<bar>of_int c - (of_int now + r * of_int day_ms)\<bar> < (10 :: rat)"
proof -
  from cutoffDate_D[OF assms(1)] obtain p1 p2 p3 p4 s where
    h: "round64 (r * 24) = Fin p1" "round64 (p1 * 60) = Fin p2" "round64 (p2 * 60) = Fin p3"
       "round64 (p3 * 1000) = Fin p4" "round64 (of_int now + p4) = Fin s"
       "\<bar>s\<bar> \<le> 8640000000000000" "c = trunc_zero s"
    by auto
  have n: "\<bar>of_int now :: rat\<bar> \<le> 8640000000000000"
  proof -
    have "(of_int \<bar>now\<bar> :: rat) \<le> of_int 8640000000000000"
      using assms(2) by (simp only: of_int_le_iff)
    then show ?thesis by simp
  qed
  have a5: "\<bar>s - (of_int now + p4)\<bar> \<le> \<bar>of_int now + p4\<bar> / 9007199254740992 + 1 / 2 ^ 1075"
    using round64_error[OF h(5)] by simp
  have 5: "\<bar>of_int now + p4\<bar> \<le> 8640000000000001 \<and> \<bar>s - (of_int now + p4)\<bar> \<le> 24 / 25"
    by (rule rounding_step_sum[OF a5 h(6)]) simp
  then have b4: "\<bar>p4\<bar> \<le> 17280000000000001" using n by linarith
  have a4: "\<bar>p4 - p3 * 1000\<bar> \<le> \<bar>p3 * 1000\<bar> / 9007199254740992 + 1 / 2 ^ 1075"
    using round64_error[OF h(4)] by simp
  have 4: "\<bar>p3 * 1000\<bar> \<le> 17280000000000001 + 2 \<and> \<bar>p4 - p3 * 1000\<bar> \<le> 48 / 25"
    by (rule rounding_step[OF a4 b4]) simp_all
  then have b3: "\<bar>p3 * 1000\<bar> \<le> 17280000000000003" by simp
  have "\<bar>p3 - p2 * 60\<bar> \<le> \<bar>p2 * 60\<bar> / 9007199254740992 + 1 / 2 ^ 1075"
    using round64_error[OF h(3)] by simp
  then have a3: "\<bar>p3 * 1000 - p2 * 60000\<bar> \<le> \<bar>p2 * 60000\<bar> / 9007199254740992 + 1000 / 2 ^ 1075"
    by (simp add: abs_if split: if_splits)
  have 3: "\<bar>p2 * 60000\<bar> \<le> 17280000000000003 + 2 \<and> \<bar>p3 * 1000 - p2 * 60000\<bar> \<le> 48 / 25"
    by (rule rounding_step[OF a3 b3]) simp_all
  then have b2: "\<bar>p2 * 60000\<bar> \<le> 17280000000000005" by simp
  have "\<bar>p2 - p1 * 60\<bar> \<le> \<bar>p1 * 60\<bar> / 9007199254740992 + 1 / 2 ^ 1075"
    using round64_error[OF h(2)] by simp
  then have a2: "\<bar>p2 * 60000 - p1 * 3600000\<bar> \<le> \<bar>p1 * 3600000\<bar> / 9007199254740992 + 60000 / 2 ^ 1075"
    by (simp add: abs_if split: if_splits)
  have 2: "\<bar>p1 * 3600000\<bar> \<le> 17280000000000005 + 2 \<and> \<bar>p2 * 60000 - p1 * 3600000\<bar> \<le> 48 / 25"
    by (rule rounding_step[OF a2 b2]) simp_all
  then have b1: "\<bar>p1 * 3600000\<bar> \<le> 17280000000000007" by simp
  have "\<bar>p1 - r * 24\<bar> \<le> \<bar>r * 24\<bar> / 9007199254740992 + 1 / 2 ^ 1075"
    using round64_error[OF h(1)] by simp
  then have a1: "\<bar>p1 * 3600000 - r * 86400000\<bar> \<le> \<bar>r * 86400000\<bar> / 9007199254740992 + 3600000 / 2 ^ 1075"
    by (simp add: abs_if split: if_splits)
  have 1: "\<bar>r * 86400000\<bar> \<le> 17280000000000007 + 2 \<and> \<bar>p1 * 3600000 - r * 86400000\<bar> \<le> 48 / 25"
    by (rule rounding_step[OF a1 b1]) simp_all
  have t: "\<bar>of_int c - s\<bar> < 1" unfolding h(7) by (rule trunc_zero_error)
  have e1: "\<bar>p1 * 3600000 - r * 86400000\<bar> \<le> 48 / 25" using 1 by (rule conjunct2)
  have e2: "\<bar>p2 * 60000 - p1 * 3600000\<bar> \<le> 48 / 25" using 2 by (rule conjunct2)
  have e3: "\<bar>p3 * 1000 - p2 * 60000\<bar> \<le> 48 / 25" using 3 by (rule conjunct2)
  have e4: "\<bar>p4 - p3 * 1000\<bar> \<le> 48 / 25" using 4 by (rule conjunct2)
  have e5: "\<bar>s - (of_int now + p4)\<bar> \<le> 24 / 25" using 5 by (rule conjunct2)
  have "\<bar>p2 * 60000 - r * 86400000\<bar> \<le> 96 / 25" using e1 e2 by linarith
  then have "\<bar>p3 * 1000 - r * 86400000\<bar> \<le> 144 / 25" using e3 by linarith
  then have "\<bar>p4 - r * 86400000\<bar> \<le> 192 / 25" using e4 by linarith
  then have "\<bar>s - (of_int now + r * 86400000)\<bar> \<le> 216 / 25" using e5 by linarith
  then have "\<bar>of_int c - (of_int now + r * 86400000)\<bar> < (10 :: rat)"
    using t by linarith
  then show ?thesis by (simp add: day_ms_def)
qed

lemma upcoming_of_window:
  "\<forall>x\<in>set (upcoming_of rt now cutoff course assignments).
     \<exists>t c. due_date rt (due_at (fst x)) = Some t \<and> cutoff = Some c \<and> now \<le> t \<and> t \<le> c"
  by (auto simp: upcoming_of_def is_upcoming_iff)

lemma uo_due_date_summary: "uo_due_date (upcoming_summary x) = due_at (fst x)"
  by (cases x) (simp add: upcoming_summary_def)

lemma upcoming_result:
  assumes "snd (getUpcomingAssignments config rt now daysAhead) = Inr (UpcomingText out)"
  obtains found where
    "out = map upcoming_summary (sort_by (by_due_at rt) found)"
    "\<forall>x\<in>set found. \<exists>t c. due_date rt (due_at (fst x)) = Some t \<and>
        cutoffDate now daysAhead = Some c \<and> now \<le> t \<and> t \<le> c"
proof -
  from assms obtain courses where
    c: "snd (await (each_course config rt (upcoming_of rt now (cutoffDate now daysAhead)) courses [])
          (\<lambda>upcomingAssignments. resolve (UpcomingText
               (map upcoming_summary (sort_by (by_due_at rt) upcomingAssignments))))) = Inr (UpcomingText out)"
    unfolding getUpcomingAssignments_def by (rule snd_await_Inr)
  then obtain found where
    f: "snd (each_course config rt (upcoming_of rt now (cutoffDate now daysAhead)) courses []) = Inr found"
    and o: "snd (resolve (UpcomingText (map upcoming_summary (sort_by (by_due_at rt) found)))) =
        Inr (UpcomingText out)"
    by (rule snd_await_Inr)
  have 1: "out = map upcoming_summary (sort_by (by_due_at rt) found)" using o by simp
  have 2: "\<forall>x\<in>set found. \<exists>t c. due_date rt (due_at (fst x)) = Some t \<and>
        cutoffDate now daysAhead = Some c \<and> now \<le> t \<and> t \<le> c"
    by (rule each_course_all[OF f, where P = "\<lambda>x. \<exists>t c. due_date rt (due_at (fst x)) = Some t \<and>
        cutoffDate now daysAhead = Some c \<and> now \<le> t \<and> t \<le> c"])
       (simp, rule upcoming_of_window)
  from 1 2 show ?thesis by (rule that)
qed

lemma upcoming_result_sorted:
  assumes "snd (getUpcomingAssignments config rt now daysAhead) = Inr (UpcomingText out)"
  shows "sorted_wrt (\<lambda>u v. \<exists>t t'. due_date rt (uo_due_date u) = Some t \<and>
            due_date rt (uo_due_date v) = Some t' \<and> t \<le> t') out"
proof -
  from assms obtain found where
    out: "out = map upcoming_summary (sort_by (by_due_at rt) found)"
    and w: "\<forall>x\<in>set found. \<exists>t c. due_date rt (due_at (fst x)) = Some t \<and>
        cutoffDate now daysAhead = Some c \<and> now \<le> t \<and> t \<le> c"
    by (rule upcoming_result)
  define key where "key x = (case due_date rt (due_at (fst x)) of Some t \<Rightarrow> t | None \<Rightarrow> 0)"
    for x :: upcoming
  have k: "due_date rt (due_at (fst x)) = Some (key x)" if "x \<in> set found" for x
    using w that by (auto simp: key_def)
  have "\<forall>x\<in>set found. \<forall>y\<in>set found. positive (by_due_at rt x y) \<longleftrightarrow> key y < key x"
    using k by (simp add: by_due_at_positive)
  then have s: "sorted_wrt (\<lambda>a b. key a \<le> key b) (sort_by (by_due_at rt) found)"
    by (rule sorted_sort_by)
  have "sorted_wrt (\<lambda>a b. \<exists>t t'. due_date rt (due_at (fst a)) = Some t \<and>
            due_date rt (due_at (fst b)) = Some t' \<and> t \<le> t') (sort_by (by_due_at rt) found)"
  proof (rule sorted_wrt_mono_rel[OF _ s])
    fix a b
    assume "a \<in> set (sort_by (by_due_at rt) found)" "b \<in> set (sort_by (by_due_at rt) found)"
      "key a \<le> key b"
    then show "\<exists>t t'. due_date rt (due_at (fst a)) = Some t \<and>
            due_date rt (due_at (fst b)) = Some t' \<and> t \<le> t'"
      using k by (auto simp: set_sort_by)
  qed
  then show ?thesis
    by (simp add: out sorted_wrt_map uo_due_date_summary)
qed

text \<open>
  The dispatcher hands \<^verbatim>\<open>get_upcoming_assignments\<close> the argument \<^verbatim>\<open>days_ahead\<close>, or \<open>7\<close> in place
  of a falsy one.
\<close>

lemma or_7_effective_days: "or_7 d = effective_days d"
proof (cases d)
  case None
  then show ?thesis by (simp add: effective_days_def)
next
  case (Some n)
  then show ?thesis by (cases n) (simp_all add: effective_days_def)
qed

lemma callTool_upcoming:
  "snd (callTool config rt now ''get_upcoming_assignments'' args) = Inr v \<longleftrightarrow>
   snd (getUpcomingAssignments config rt now (effective_days (arg_days_ahead args))) = Inr v"
  by (auto simp: callTool_def switch_name_def or_7_effective_days split: prod.splits sum.splits)

subsection \<open>Evaluation on the sample runtime\<close>

lemma round64_numeral:
  "(numeral n :: int) < 2 ^ 53 \<Longrightarrow> round64 (numeral n) = Fin (numeral n)"
  using round64_int[of "numeral n"] by simp

lemma round64_neg_numeral:
  "(numeral n :: int) < 2 ^ 53 \<Longrightarrow> round64 (- numeral n) = Fin (- numeral n)"
  using round64_int[of "- numeral n"] by simp

lemmas sample_defs =
  sample_runtime_def sample_config_def sample_now_def sample_courses_def sample_course_def
  sample_assignments_def sample_assignment_def sample_parse_def no_arguments_def

lemma sample_cutoff: "cutoffDate 1704067200000 (Fin 14) = Some 1705276800000"
  by (simp add: cutoffDate_def round64_numeral trunc_zero_def)

lemma sample_upcoming_run:
  "snd (getUpcomingAssignments sample_config sample_runtime sample_now (Fin 14)) =
     Inr (UpcomingText sample_upcoming)"
  by (simp add: getUpcomingAssignments_def snd_await makeCanvasRequest_def sample_cutoff
      sample_defs upcoming_of_def is_upcoming_def days_until_due_def
      Date_ge_def Date_le_def js_ge_def js_sub_def round64_numeral round64_neg_numeral
      sort_by_def by_due_at_def upcoming_summary_def sample_upcoming_def await_def resolve_def
      split: prod.splits)

lemma sample_cutoff_week: "cutoffDate 1704067200000 (Fin 7) = Some 1704672000000"
  by (simp add: cutoffDate_def round64_numeral trunc_zero_def)

lemma sample_week_run:
  "snd (getUpcomingAssignments sample_config sample_runtime sample_now (Fin 7)) =
     Inr (UpcomingText sample_week)"
  by (simp add: getUpcomingAssignments_def snd_await makeCanvasRequest_def sample_cutoff_week
      sample_defs upcoming_of_def is_upcoming_def days_until_due_def
      Date_ge_def Date_le_def js_ge_def js_sub_def round64_numeral round64_neg_numeral
      sort_by_def by_due_at_def upcoming_summary_def sample_upcoming_def sample_week_def
      await_def resolve_def split: prod.splits)

lemma sample_cutoff_half_week: "cutoffDate 1704067200000 (Fin (7 / 2)) = Some 1704369600000"
  by (simp add: cutoffDate_def round64_numeral trunc_zero_def)

lemma sample_half_week_run:
  "snd (getUpcomingAssignments sample_config sample_runtime sample_now (Fin (7 / 2))) =
     Inr (UpcomingText sample_half_week)"
  by (simp add: getUpcomingAssignments_def snd_await makeCanvasRequest_def sample_cutoff_half_week
      sample_defs upcoming_of_def is_upcoming_def days_until_due_def
      Date_ge_def Date_le_def js_ge_def js_sub_def round64_numeral round64_neg_numeral
      sort_by_def by_due_at_def upcoming_summary_def sample_upcoming_def sample_half_week_def
      await_def resolve_def split: prod.splits)

lemma sample_all_run: "snd (allAssignments sample_config sample_runtime) = Inr sample_all"
  by (simp add: allAssignments_def snd_await makeCanvasRequest_def sample_runtime_def
      sample_courses_def sample_course_def sample_all_def await_def resolve_def split: prod.splits)

section \<open>The tool registry and the dispatcher: verified properties\<close>

text \<open>
  Claim C8. The list-tools operation always returns exactly six tool entries, named
  \<^verbatim>\<open>get_courses\<close>, \<^verbatim>\<open>get_assignments\<close>, \<^verbatim>\<open>get_upcoming_assignments\<close>, \<^verbatim>\<open>get_grades\<close>,
  \<^verbatim>\<open>get_course_progress\<close> and \<^verbatim>\<open>search_assignments\<close>, whatever the configuration and the
  runtime, and without any request to the upstream service.
\<close>

theorem list_tools_six:
  "answer config rt ListToolsRequest = ([], ToolsListed listTools) \<and>
   length listTools = 6 \<and>
   map tool_name listTools =
     [''get_courses'', ''get_assignments'', ''get_upcoming_assignments'', ''get_grades'',
      ''get_course_progress'', ''search_assignments'']"
  by (simp add: listTools_def)

text \<open>
  Claim C3. A call-tool request whose name is not one of the six registered names fails
  with the method-not-found error thrown by the \<^verbatim>\<open>default\<close> branch; the \<^verbatim>\<open>catch\<close> block
  hands it on unchanged, and no request is sent upstream.
\<close>

theorem unknown_tool_method_not_found:
  assumes "name \<notin> set (map tool_name listTools)"
  shows "callTool config rt now name args =
           ([], Inl (McpError MethodNotFound (''Unknown tool: '' @ name)))"
proof -
  have "name \<noteq> ''get_courses''" "name \<noteq> ''get_assignments''"
    "name \<noteq> ''get_upcoming_assignments''" "name \<noteq> ''get_grades''"
    "name \<noteq> ''get_course_progress''" "name \<noteq> ''search_assignments''"
    using assms by (auto simp: listTools_def)
  then have "switch_name config rt now name args =
      ([], Inl (McpError MethodNotFound (''Unknown tool: '' @ name)))"
    by (simp add: switch_name_def throw_def)
  then show ?thesis by (simp add: callTool_def)
qed

theorem unknown_tool_witness:
  "''get_course'' \<notin> set (map tool_name listTools) \<and>
   callTool sample_config sample_runtime sample_now ''get_course'' no_arguments =
     ([], Inl (McpError MethodNotFound ''Unknown tool: get_course''))"
proof -
  have h: "''get_course'' \<notin> set (map tool_name listTools)"
    by (simp add: listTools_def)
  show ?thesis
    using h unknown_tool_method_not_found[OF h, of sample_config sample_runtime sample_now no_arguments]
    by simp
qed

text \<open>
  Claim C6. When the environment variable \<^verbatim>\<open>CANVAS_ACCESS_TOKEN\<close> is absent or empty, the
  constructor throws the configuration error, and the program ends with it without having
  issued a single network request, whatever the host would have asked.
\<close>

theorem missing_token_fails_before_network:
  assumes "process_env rt ''CANVAS_ACCESS_TOKEN'' = None \<or>
           process_env rt ''CANVAS_ACCESS_TOKEN'' = Some []"
  shows "constructor rt =
           Inl (Thrown (ErrorObject ''CANVAS_ACCESS_TOKEN environment variable is required'')) \<and>
         program rt requests =
           ([], Crashed (Thrown (ErrorObject ''CANVAS_ACCESS_TOKEN environment variable is required'')))"
proof -
  have "env_or (process_env rt ''CANVAS_ACCESS_TOKEN'') [] = []"
    using assms by auto
  then have c: "constructor rt =
      Inl (Thrown (ErrorObject ''CANVAS_ACCESS_TOKEN environment variable is required''))"
    by (simp add: constructor_def Let_def)
  then show ?thesis by (simp add: program_def)
qed

theorem missing_token_witness:
  "(process_env (sample_runtime\<lparr>process_env := Map.empty\<rparr>) ''CANVAS_ACCESS_TOKEN'' = None \<or>
    process_env (sample_runtime\<lparr>process_env := Map.empty\<rparr>) ''CANVAS_ACCESS_TOKEN'' = Some []) \<and>
   program (sample_runtime\<lparr>process_env := Map.empty\<rparr>)
       [CallToolRequest ''get_courses'' no_arguments sample_now] =
     ([], Crashed (Thrown (ErrorObject ''CANVAS_ACCESS_TOKEN environment variable is required'')))"
proof -
  have h: "process_env (sample_runtime\<lparr>process_env := Map.empty\<rparr>) ''CANVAS_ACCESS_TOKEN'' = None \<or>
    process_env (sample_runtime\<lparr>process_env := Map.empty\<rparr>) ''CANVAS_ACCESS_TOKEN'' = Some []"
    by simp
  show ?thesis
    using h missing_token_fails_before_network[OF h,
        of "[CallToolRequest ''get_courses'' no_arguments sample_now]"]
    by simp
qed

text \<open>
  Claim C9. A call of \<^verbatim>\<open>get_upcoming_assignments\<close> whose \<^verbatim>\<open>days_ahead\<close> argument is falsy
  (absent, \<open>0\<close> or \<open>NaN\<close>) gives exactly what the call with \<^verbatim>\<open>days_ahead\<close> equal to \<open>7\<close> gives:
  the dispatcher replaces the falsy value by \<open>7\<close>, so a window of zero days cannot be asked for.
\<close>

theorem falsy_days_ahead_is_seven:
  assumes "d = None \<or> (\<exists>n. d = Some n \<and> \<not> truthy n)"
  shows "callTool config rt now ''get_upcoming_assignments'' (args\<lparr>arg_days_ahead := d\<rparr>) =
         callTool config rt now ''get_upcoming_assignments'' (args\<lparr>arg_days_ahead := Some (Fin 7)\<rparr>)"
proof -
  have "or_7 d = or_7 (Some (Fin 7))" using assms by auto
  then show ?thesis by (simp add: callTool_def switch_name_def)
qed

theorem falsy_days_ahead_witness:
  "(Some (Fin 0) = None \<or> (\<exists>n. Some (Fin 0) = Some n \<and> \<not> truthy n)) \<and>
   callTool sample_config sample_runtime sample_now ''get_upcoming_assignments''
       (no_arguments\<lparr>arg_days_ahead := Some (Fin 0)\<rparr>) =
   callTool sample_config sample_runtime sample_now ''get_upcoming_assignments''
       (no_arguments\<lparr>arg_days_ahead := Some (Fin 7)\<rparr>)"
proof -
  have h: "Some (Fin 0) = None \<or> (\<exists>n. Some (Fin 0) = Some n \<and> \<not> truthy n)"
    by simp
  show ?thesis
    using h falsy_days_ahead_is_seven[OF h, of sample_config sample_runtime sample_now no_arguments]
    by simp
qed

section \<open>Upcoming assignments: verified properties\<close>

text \<open>
  Claim C2, as the code has it. Let \<open>r\<close> be the number of days the call asks for:
  \<^verbatim>\<open>days_ahead\<close>, or \<open>7\<close> when \<^verbatim>\<open>days_ahead\<close> is absent, \<open>0\<close> or \<open>NaN\<close>. Whatever the fetched
  assignments, every item that a call of \<^verbatim>\<open>get_upcoming_assignments\<close> returns has a due date
  \<open>t\<close> with \<open>now \<le> t\<close> and \<open>t < now + r days + 10 ms\<close>, the ten milliseconds covering the
  binary64 rounding of the cut-off; when \<open>r\<close> is a whole number \<open>n\<close> (with \<open>n\<close> days below
  \<open>2 ^ 53\<close> milliseconds) the bound is exact, \<open>t \<le> now + n days\<close>. The returned list is in
  ascending order of due date. The clock reading \<open>now\<close> is a valid time value.
\<close>

theorem upcoming_within_effective_window:
  assumes "snd (callTool config rt now ''get_upcoming_assignments'' args) = Inr (UpcomingText out)"
    and "\<bar>now\<bar> \<le> 8640000000000000"
  shows "(\<forall>u\<in>set out. \<exists>t r. due_date rt (uo_due_date u) = Some t \<and>
            effective_days (arg_days_ahead args) = Fin r \<and> now \<le> t \<and>
            of_int t < of_int now + r * of_int day_ms + (10 :: rat) \<and>
            (\<forall>n. r = of_int n \<and> \<bar>n * day_ms\<bar> < 2 ^ 53 \<longrightarrow> t \<le> now + n * day_ms)) \<and>
         sorted_wrt (\<lambda>u v. \<exists>t t'. due_date rt (uo_due_date u) = Some t \<and>
            due_date rt (uo_due_date v) = Some t' \<and> t \<le> t') out"
proof -
  define d where "d = effective_days (arg_days_ahead args)"
  have run: "snd (getUpcomingAssignments config rt now d) = Inr (UpcomingText out)"
    using assms(1) unfolding callTool_upcoming d_def .
  from run obtain found where
    out: "out = map upcoming_summary (sort_by (by_due_at rt) found)"
    and w: "\<forall>x\<in>set found. \<exists>t c. due_date rt (due_at (fst x)) = Some t \<and>
        cutoffDate now d = Some c \<and> now \<le> t \<and> t \<le> c"
    by (rule upcoming_result)
  have "\<exists>t r. due_date rt (uo_due_date u) = Some t \<and> d = Fin r \<and> now \<le> t \<and>
            of_int t < of_int now + r * of_int day_ms + (10 :: rat) \<and>
            (\<forall>n. r = of_int n \<and> \<bar>n * day_ms\<bar> < 2 ^ 53 \<longrightarrow> t \<le> now + n * day_ms)"
    if "u \<in> set out" for u
  proof -
    from that obtain x where x: "x \<in> set found" "u = upcoming_summary x"
      unfolding out by (auto simp: set_sort_by)
    from w x(1) obtain t c where
      tc: "due_date rt (due_at (fst x)) = Some t" "cutoffDate now d = Some c" "now \<le> t" "t \<le> c"
      by blast
    from cutoffDate_D[OF tc(2)] obtain r where r: "d = Fin r" by blast
    have c: "cutoffDate now (Fin r) = Some c" using tc(2) by (simp only: r)
    have "\<bar>of_int c - (of_int now + r * of_int day_ms)\<bar> < (10 :: rat)"
      using c assms(2) by (rule cutoffDate_close)
    moreover have "(of_int t :: rat) \<le> of_int c" using tc(4) by (simp only: of_int_le_iff)
    ultimately have up: "of_int t < of_int now + r * of_int day_ms + (10 :: rat)" by linarith
    have wd: "\<forall>n. r = of_int n \<and> \<bar>n * day_ms\<bar> < 2 ^ 53 \<longrightarrow> t \<le> now + n * day_ms"
    proof (intro allI impI)
      fix n
      assume n: "r = of_int n \<and> \<bar>n * day_ms\<bar> < 2 ^ 53"
      then have "cutoffDate now (Fin (of_int n)) = Some c" using c by simp
      then have "c = now + n * day_ms" using n by (intro cutoffDate_whole_days_valid) simp_all
      then show "t \<le> now + n * day_ms" using tc(4) by simp
    qed
    have du: "due_date rt (uo_due_date u) = Some t"
      using tc(1) by (simp only: x(2) uo_due_date_summary)
    from du r tc(3) up wd show ?thesis by (intro exI conjI)
  qed
  then have 1: "\<forall>u\<in>set out. \<exists>t r. due_date rt (uo_due_date u) = Some t \<and>
            effective_days (arg_days_ahead args) = Fin r \<and> now \<le> t \<and>
            of_int t < of_int now + r * of_int day_ms + (10 :: rat) \<and>
            (\<forall>n. r = of_int n \<and> \<bar>n * day_ms\<bar> < 2 ^ 53 \<longrightarrow> t \<le> now + n * day_ms)"
    unfolding d_def by blast
  have 2: "sorted_wrt (\<lambda>u v. \<exists>t t'. due_date rt (uo_due_date u) = Some t \<and>
            due_date rt (uo_due_date v) = Some t' \<and> t \<le> t') out"
    using run by (rule upcoming_result_sorted)
  from 1 2 show ?thesis by (rule conjI)
qed

theorem upcoming_within_effective_window_witness:
  "snd (callTool sample_config sample_runtime sample_now ''get_upcoming_assignments''
          (no_arguments\<lparr>arg_days_ahead := Some (Fin (7 / 2))\<rparr>)) =
     Inr (UpcomingText sample_half_week) \<and>
   snd (callTool sample_config sample_runtime sample_now ''get_upcoming_assignments''
          (no_arguments\<lparr>arg_days_ahead := Some (Fin 14)\<rparr>)) =
     Inr (UpcomingText sample_upcoming) \<and>
   \<bar>sample_now\<bar> \<le> 8640000000000000 \<and>
   map uo_name sample_half_week = [''Lab''] \<and>
   list_all (\<lambda>u. \<exists>t. due_date sample_runtime (uo_due_date u) = Some t \<and> sample_now \<le> t \<and>
      of_int t < of_int sample_now + 7 / 2 * of_int day_ms + (10 :: rat)) sample_half_week \<and>
   list_all (\<lambda>u. \<exists>t. due_date sample_runtime (uo_due_date u) = Some t \<and> sample_now \<le> t \<and>
      t \<le> sample_now + 14 * day_ms) sample_upcoming \<and>
   sorted_wrt (\<lambda>u v. \<exists>t t'. due_date sample_runtime (uo_due_date u) = Some t \<and>
      due_date sample_runtime (uo_due_date v) = Some t' \<and> t \<le> t') sample_upcoming"
proof -
  define half where "half = no_arguments\<lparr>arg_days_ahead := Some (Fin (7 / 2))\<rparr>"
  define fortnight where "fortnight = no_arguments\<lparr>arg_days_ahead := Some (Fin 14)\<rparr>"
  have eh: "effective_days (arg_days_ahead half) = Fin (7 / 2)"
    by (simp add: effective_days_def half_def)
  have ef: "effective_days (arg_days_ahead fortnight) = Fin 14"
    by (simp add: effective_days_def fortnight_def)
  have h: "snd (callTool sample_config sample_runtime sample_now ''get_upcoming_assignments'' half) =
     Inr (UpcomingText sample_half_week)"
    unfolding callTool_upcoming eh by (rule sample_half_week_run)
  have f: "snd (callTool sample_config sample_runtime sample_now ''get_upcoming_assignments''
     fortnight) = Inr (UpcomingText sample_upcoming)"
    unfolding callTool_upcoming ef by (rule sample_upcoming_run)
  have n: "\<bar>sample_now\<bar> \<le> 8640000000000000" by (simp add: sample_now_def)
  have m: "map uo_name sample_half_week = [''Lab'']"
    by (simp add: sample_half_week_def sample_upcoming_def)
  note th = upcoming_within_effective_window[OF h n, unfolded eh]
  note tf = upcoming_within_effective_window[OF f n, unfolded ef]
  have 1: "list_all (\<lambda>u. \<exists>t. due_date sample_runtime (uo_due_date u) = Some t \<and> sample_now \<le> t \<and>
      of_int t < of_int sample_now + 7 / 2 * of_int day_ms + (10 :: rat)) sample_half_week"
    unfolding list_all_iff
  proof
    fix u assume "u \<in> set sample_half_week"
    with th obtain t r where t:
      "due_date sample_runtime (uo_due_date u) = Some t" "Fin (7 / 2) = Fin r" "sample_now \<le> t"
      "of_int t < of_int sample_now + r * of_int day_ms + (10 :: rat)"
      by blast
    from t(2) have "r = 7 / 2" by (simp only: number.inject)
    with t(4) have "of_int t < of_int sample_now + 7 / 2 * of_int day_ms + (10 :: rat)"
      by (simp only:)
    with t(1,3) show "\<exists>t. due_date sample_runtime (uo_due_date u) = Some t \<and> sample_now \<le> t \<and>
      of_int t < of_int sample_now + 7 / 2 * of_int day_ms + (10 :: rat)"
      by blast
  qed
  have w: "\<bar>14 * day_ms\<bar> < 2 ^ 53" by (simp add: day_ms_def)
  have 2: "list_all (\<lambda>u. \<exists>t. due_date sample_runtime (uo_due_date u) = Some t \<and> sample_now \<le> t \<and>
      t \<le> sample_now + 14 * day_ms) sample_upcoming"
    unfolding list_all_iff
  proof
    fix u assume "u \<in> set sample_upcoming"
    with tf obtain t r where t:
      "due_date sample_runtime (uo_due_date u) = Some t" "Fin 14 = Fin r" "sample_now \<le> t"
      "\<forall>n. r = of_int n \<and> \<bar>n * day_ms\<bar> < 2 ^ 53 \<longrightarrow> t \<le> sample_now + n * day_ms"
      by blast
    from t(2) have "r = of_int 14" by simp
    with t(4) w have "t \<le> sample_now + 14 * day_ms" by blast
    with t(1,3) show "\<exists>t. due_date sample_runtime (uo_due_date u) = Some t \<and> sample_now \<le> t \<and>
      t \<le> sample_now + 14 * day_ms"
      by blast
  qed
  have 3: "sorted_wrt (\<lambda>u v. \<exists>t t'. due_date sample_runtime (uo_due_date u) = Some t \<and>
      due_date sample_runtime (uo_due_date v) = Some t' \<and> t \<le> t') sample_upcoming"
    using tf by (rule conjunct2)
  from h f n m 1 2 3 show ?thesis unfolding half_def fortnight_def by (intro conjI)
qed

text \<open>
  The claim as stated fails for \<^verbatim>\<open>days_ahead\<close> equal to \<open>0\<close>: the call does not use a window of
  zero days. On the sample runtime it returns the two assignments that are due two and four
  days after \<open>now\<close>, both outside \<open>[now, now + 0 days]\<close>.
\<close>

theorem upcoming_zero_days_outside_window:
  "snd (callTool sample_config sample_runtime sample_now ''get_upcoming_assignments''
          (no_arguments\<lparr>arg_days_ahead := Some (Fin 0)\<rparr>)) = Inr (UpcomingText sample_week) \<and>
   map uo_name sample_week = [''Lab'', ''Report''] \<and>
   map (\<lambda>u. due_date sample_runtime (uo_due_date u)) sample_week =
     [Some (sample_now + 2 * day_ms), Some (sample_now + 4 * day_ms)] \<and>
   list_all (\<lambda>u. \<exists>t. due_date sample_runtime (uo_due_date u) = Some t \<and>
      sample_now + 0 * day_ms < t) sample_week"
proof -
  have e: "effective_days (arg_days_ahead (no_arguments\<lparr>arg_days_ahead := Some (Fin 0)\<rparr>)) = Fin 7"
    by (simp add: effective_days_def)
  have 1: "snd (callTool sample_config sample_runtime sample_now ''get_upcoming_assignments''
          (no_arguments\<lparr>arg_days_ahead := Some (Fin 0)\<rparr>)) = Inr (UpcomingText sample_week)"
    unfolding callTool_upcoming e by (rule sample_week_run)
  have 2: "map uo_name sample_week = [''Lab'', ''Report'']"
    by (simp add: sample_week_def sample_upcoming_def)
  have 3: "map (\<lambda>u. due_date sample_runtime (uo_due_date u)) sample_week =
     [Some (sample_now + 2 * day_ms), Some (sample_now + 4 * day_ms)]"
    by (simp add: sample_week_def sample_upcoming_def sample_runtime_def sample_parse_def
        sample_now_def day_ms_def)
  have 4: "list_all (\<lambda>u. \<exists>t. due_date sample_runtime (uo_due_date u) = Some t \<and>
      sample_now + 0 * day_ms < t) sample_week"
    by (simp add: sample_week_def sample_upcoming_def sample_runtime_def sample_parse_def
        sample_now_def day_ms_def)
  from 1 2 3 4 show ?thesis by (intro conjI)
qed

text \<open>
  Claim C10. \<^verbatim>\<open>get_upcoming_assignments\<close> never returns an item whose due date is \<^verbatim>\<open>null\<close>,
  and every assignment that passes the window filter, hence every assignment for which
  \<^verbatim>\<open>days_until_due\<close> is computed, has a \<^verbatim>\<open>due_at\<close> that is not \<^verbatim>\<open>null\<close>.
\<close>

theorem upcoming_due_date_present:
  assumes "snd (getUpcomingAssignments config rt now daysAhead) = Inr (UpcomingText out)"
  shows "(\<forall>u\<in>set out. uo_due_date u \<noteq> None) \<and>
         (\<forall>cutoff assignments. \<forall>a\<in>set (filter (is_upcoming rt now cutoff) assignments).
            due_at a \<noteq> None)"
proof -
  from assms obtain found where
    out: "out = map upcoming_summary (sort_by (by_due_at rt) found)"
    and w: "\<forall>x\<in>set found. \<exists>t c. due_date rt (due_at (fst x)) = Some t \<and>
        cutoffDate now daysAhead = Some c \<and> now \<le> t \<and> t \<le> c"
    by (rule upcoming_result)
  have "\<forall>x\<in>set found. due_at (fst x) \<noteq> None"
  proof
    fix x assume "x \<in> set found"
    with w obtain t where "due_date rt (due_at (fst x)) = Some t" by blast
    then show "due_at (fst x) \<noteq> None" by (cases "due_at (fst x)") simp_all
  qed
  then have 1: "\<forall>u\<in>set out. uo_due_date u \<noteq> None"
    by (simp add: out set_sort_by uo_due_date_summary)
  have 2: "\<forall>cutoff assignments. \<forall>a\<in>set (filter (is_upcoming rt now cutoff) assignments).
            due_at a \<noteq> None"
  proof (intro allI ballI)
    fix cutoff assignments a
    assume "a \<in> set (filter (is_upcoming rt now cutoff) assignments)"
    then have "is_upcoming rt now cutoff a" by simp
    then obtain t where "due_date rt (due_at a) = Some t" by (auto simp: is_upcoming_iff)
    then show "due_at a \<noteq> None" by (cases "due_at a") simp_all
  qed
  from 1 2 show ?thesis by blast
qed

theorem upcoming_due_date_present_witness:
  "snd (getUpcomingAssignments sample_config sample_runtime sample_now (Fin 14)) =
     Inr (UpcomingText sample_upcoming) \<and>
   list_all (\<lambda>u. uo_due_date u \<noteq> None) sample_upcoming \<and>
   list_all (\<lambda>a. due_at a \<noteq> None)
     (filter (is_upcoming sample_runtime sample_now (cutoffDate sample_now (Fin 14)))
        (sample_assignments (Fin 1))) \<and>
   filter (is_upcoming sample_runtime sample_now (cutoffDate sample_now (Fin 14)))
        (sample_assignments (Fin 1)) \<noteq> []"
proof -
  have h: "snd (getUpcomingAssignments sample_config sample_runtime sample_now (Fin 14)) =
     Inr (UpcomingText sample_upcoming)"
    by (rule sample_upcoming_run)
  have n: "filter (is_upcoming sample_runtime sample_now (cutoffDate sample_now (Fin 14)))
        (sample_assignments (Fin 1)) \<noteq> []"
    by (simp add: sample_now_def sample_cutoff sample_assignments_def sample_assignment_def
        is_upcoming_def sample_runtime_def sample_parse_def Date_ge_def Date_le_def js_ge_def)
  show ?thesis using h n upcoming_due_date_present[OF h] unfolding list_all_iff by blast
qed

section \<open>Failures of a handler: verified properties\<close>

lemma sample_search_undefined:
  "snd (switch_name sample_config sample_runtime sample_now ''search_assignments'' no_arguments) =
     Inl (Thrown (ErrorObject ''Cannot read properties of undefined (reading 'toLowerCase')''))"
  by (simp add: switch_name_def searchAssignments_def snd_await sample_all_run no_arguments_def
      matchingAssignments_def sample_all_def sample_assignments_def throw_def
      undefined_toLowerCase_def)

lemma offline_courses:
  "snd (switch_name sample_config offline_runtime sample_now ''get_courses'' no_arguments) =
     Inl (McpError InternalError ''Failed to fetch from Canvas: fetch failed'')"
  by (simp add: switch_name_def getCourses_def snd_await makeCanvasRequest_def offline_runtime_def
      fetch_failed_def)

text \<open>
  Claim C7. When the handler selected by the \<^verbatim>\<open>switch\<close> fails, the call-tool handler fails
  too, after the same upstream requests: an \<^verbatim>\<open>McpError\<close> leaves unchanged, any other \<^verbatim>\<open>Error\<close>
  is wrapped in an internal error whose message is \<^verbatim>\<open>Error executing <name>: \<close> followed by
  the original message, and a thrown value that is not an \<^verbatim>\<open>Error\<close> is reported with the
  message \<^verbatim>\<open>Unknown error\<close>. No failure is swallowed.
\<close>

theorem handler_failure_wrapped:
  assumes "snd (switch_name config rt now name args) = Inl e"
  shows "callTool config rt now name args =
           (fst (switch_name config rt now name args),
            Inl (case e of
                   McpError code m \<Rightarrow> McpError code m
                 | Thrown (ErrorObject m) \<Rightarrow>
                     McpError InternalError (''Error executing '' @ name @ '': '' @ m)
                 | Thrown OtherValue \<Rightarrow>
                     McpError InternalError (''Error executing '' @ name @ '': Unknown error'')))"
proof -
  obtain rs where s: "switch_name config rt now name args = (rs, Inl e)"
    using assms by (cases "switch_name config rt now name args") auto
  show ?thesis
    by (simp add: callTool_def s split: exn.split thrown.split)
qed

theorem handler_failure_witness:
  "snd (switch_name sample_config sample_runtime sample_now ''search_assignments'' no_arguments) =
     Inl (Thrown (ErrorObject ''Cannot read properties of undefined (reading 'toLowerCase')'')) \<and>
   snd (callTool sample_config sample_runtime sample_now ''search_assignments'' no_arguments) =
     Inl (McpError InternalError
       ''Error executing search_assignments: Cannot read properties of undefined (reading 'toLowerCase')'') \<and>
   snd (switch_name sample_config offline_runtime sample_now ''get_courses'' no_arguments) =
     Inl (McpError InternalError ''Failed to fetch from Canvas: fetch failed'') \<and>
   snd (callTool sample_config offline_runtime sample_now ''get_courses'' no_arguments) =
     Inl (McpError InternalError ''Failed to fetch from Canvas: fetch failed'')"
  using sample_search_undefined offline_courses
    handler_failure_wrapped[OF sample_search_undefined]
    handler_failure_wrapped[OF offline_courses]
  by simp

section \<open>Listing assignments: verified properties\<close>

text \<open>
  What the filter of \<^verbatim>\<open>getAssignments\<close> keeps, for any \<^verbatim>\<open>due_at\<close>: a non-empty string that the
  runtime cannot parse as a date gives an invalid date, every comparison with it is false,
  and the assignment is dropped.
\<close>

lemma not_yet_due_iff:
  "not_yet_due rt now a \<longleftrightarrow>
     (case due_at a of
        None \<Rightarrow> True
      | Some s \<Rightarrow> s = [] \<or> (\<exists>t. Date_parse rt s = Some t \<and> now \<le> t))"
  by (cases "due_at a"; cases "Date_parse rt (the (due_at a))")
     (auto simp: not_yet_due_def Date_ge_def js_ge_def)

lemma not_yet_due_passed:
  assumes "timestamp_or_null rt (due_at a)"
  shows "not_yet_due rt now a \<longleftrightarrow> \<not> due_date_passed rt now a"
  using assms
  by (cases "due_at a")
     (auto simp: not_yet_due_iff due_date_passed_def split: option.splits)

lemma sample_fetched_run:
  "snd (fetched_assignments sample_config sample_runtime None) = Inr sample_fetched"
  by (simp add: fetched_assignments_def snd_await makeCanvasRequest_def sample_runtime_def
      sample_courses_def sample_course_def sample_fetched_def await_def resolve_def
      split: prod.splits)

lemma sample_fetched_well_formed:
  "\<forall>x\<in>set sample_fetched. timestamp_or_null sample_runtime (due_at (fst x))"
  by (simp add: sample_fetched_def sample_assignments_def sample_assignment_def
      sample_runtime_def sample_parse_def)

lemma not_yet_due_kept:
  "not_yet_due rt now a \<longleftrightarrow> falsy_string (due_at a) \<or> due_now_or_later rt now a"
  by (cases "due_at a") (auto simp: not_yet_due_iff due_now_or_later_def split: option.splits)

lemma sample_kept:
  "map (a_name \<circ> fst)
     (filter (\<lambda>x. falsy_string (due_at (fst x)) \<or> due_now_or_later sample_runtime sample_now (fst x))
        sample_fetched) =
   [''Homework'', ''Essay'', ''Report'', ''Lab'']"
  by (simp add: sample_fetched_def sample_assignments_def sample_assignment_def
      sample_runtime_def sample_parse_def due_now_or_later_def sample_now_def)

lemma sample_project_run:
  "snd (fetched_assignments sample_config sample_runtime (Some (Fin 3))) =
     Inr [(sample_assignment 31 ''Project'' (Some ''TBD'') 3 None, None)]"
  by (simp add: fetched_assignments_def snd_await makeCanvasRequest_def sample_runtime_def
      sample_assignments_def)

text \<open>
  Claim C4, as the code has it. With \<^verbatim>\<open>include_completed\<close> false or absent,
  \<^verbatim>\<open>get_assignments\<close> returns, in order, exactly the fetched assignments that have no due
  date (\<^verbatim>\<open>due_at\<close> \<^verbatim>\<open>null\<close> or empty) or whose \<^verbatim>\<open>due_at\<close> is a date at \<open>now\<close> or later; every
  other one is excluded: those whose due date lies strictly before \<open>now\<close>, and those whose
  non-empty \<^verbatim>\<open>due_at\<close> is not a date. For an assignment whose \<^verbatim>\<open>due_at\<close> is \<^verbatim>\<open>null\<close>, empty or a
  date, being kept is the same as its due date not having passed. With
  \<^verbatim>\<open>include_completed\<close> true no assignment is excluded.
\<close>

theorem assignments_keep_undated_or_due_later:
  assumes "snd (fetched_assignments config rt courseId) = Inr assignments"
  shows "snd (getAssignments config rt now courseId includeCompleted) =
           Inr (AssignmentsText (map assignment_summary
             (if includeCompleted = Some True then assignments
              else filter (\<lambda>x. falsy_string (due_at (fst x)) \<or> due_now_or_later rt now (fst x))
                     assignments))) \<and>
         (\<forall>x\<in>set assignments. timestamp_or_null rt (due_at (fst x)) \<longrightarrow>
            (falsy_string (due_at (fst x)) \<or> due_now_or_later rt now (fst x) \<longleftrightarrow>
             \<not> due_date_passed rt now (fst x))) \<and>
         (\<forall>x\<in>set assignments. \<not> timestamp_or_null rt (due_at (fst x)) \<longrightarrow>
            \<not> (falsy_string (due_at (fst x)) \<or> due_now_or_later rt now (fst x)))"
proof -
  have f: "filter (\<lambda>x. not_yet_due rt now (fst x)) assignments =
           filter (\<lambda>x. falsy_string (due_at (fst x)) \<or> due_now_or_later rt now (fst x)) assignments"
    by (intro filter_cong) (auto simp: not_yet_due_kept)
  have o: "or_false includeCompleted \<longleftrightarrow> includeCompleted = Some True"
    by (cases includeCompleted) auto
  have 1: "snd (getAssignments config rt now courseId includeCompleted) =
           Inr (AssignmentsText (map assignment_summary
             (if includeCompleted = Some True then assignments
              else filter (\<lambda>x. falsy_string (due_at (fst x)) \<or> due_now_or_later rt now (fst x))
                     assignments)))"
    using assms f o by (simp add: getAssignments_def snd_await)
  have 2: "\<forall>x\<in>set assignments. timestamp_or_null rt (due_at (fst x)) \<longrightarrow>
            (falsy_string (due_at (fst x)) \<or> due_now_or_later rt now (fst x) \<longleftrightarrow>
             \<not> due_date_passed rt now (fst x))"
    using not_yet_due_passed[of rt _ now] by (simp add: not_yet_due_kept[symmetric])
  have 3: "\<forall>x\<in>set assignments. \<not> timestamp_or_null rt (due_at (fst x)) \<longrightarrow>
            \<not> (falsy_string (due_at (fst x)) \<or> due_now_or_later rt now (fst x))"
  proof (intro ballI impI)
    fix x :: "Assignment \<times> string option"
    assume "\<not> timestamp_or_null rt (due_at (fst x))"
    then show "\<not> (falsy_string (due_at (fst x)) \<or> due_now_or_later rt now (fst x))"
      by (cases "due_at (fst x)") (auto simp: due_now_or_later_def)
  qed
  from 1 2 3 show ?thesis by (intro conjI)
qed

theorem assignments_keep_witness:
  "snd (fetched_assignments sample_config sample_runtime None) = Inr sample_fetched \<and>
   snd (getAssignments sample_config sample_runtime sample_now None None) =
     Inr (AssignmentsText (map assignment_summary
       (filter (\<lambda>x. falsy_string (due_at (fst x)) \<or>
                  due_now_or_later sample_runtime sample_now (fst x)) sample_fetched))) \<and>
   snd (getAssignments sample_config sample_runtime sample_now None (Some True)) =
     Inr (AssignmentsText (map assignment_summary sample_fetched)) \<and>
   map (a_name \<circ> fst)
     (filter (\<lambda>x. falsy_string (due_at (fst x)) \<or>
                due_now_or_later sample_runtime sample_now (fst x)) sample_fetched) =
   [''Homework'', ''Essay'', ''Report'', ''Lab''] \<and>
   map (a_name \<circ> fst) sample_fetched = [''Homework'', ''Quiz'', ''Essay'', ''Report'', ''Lab''] \<and>
   list_all (\<lambda>x. timestamp_or_null sample_runtime (due_at (fst x))) sample_fetched \<and>
   list_all (\<lambda>x. falsy_string (due_at (fst x)) \<or>
                due_now_or_later sample_runtime sample_now (fst x) \<longleftrightarrow>
                \<not> due_date_passed sample_runtime sample_now (fst x)) sample_fetched"
proof -
  have n: "map (a_name \<circ> fst) sample_fetched = [''Homework'', ''Quiz'', ''Essay'', ''Report'', ''Lab'']"
    by (simp add: sample_fetched_def sample_assignments_def sample_assignment_def)
  note t = assignments_keep_undated_or_due_later[OF sample_fetched_run, of sample_now None]
  note u = assignments_keep_undated_or_due_later[OF sample_fetched_run, of sample_now "Some True"]
  have w: "list_all (\<lambda>x. timestamp_or_null sample_runtime (due_at (fst x))) sample_fetched"
    using sample_fetched_well_formed by (simp add: list_all_iff)
  have e: "list_all (\<lambda>x. falsy_string (due_at (fst x)) \<or>
                due_now_or_later sample_runtime sample_now (fst x) \<longleftrightarrow>
                \<not> due_date_passed sample_runtime sample_now (fst x)) sample_fetched"
    unfolding list_all_iff using t sample_fetched_well_formed by (elim conjE) simp
  have a: "snd (getAssignments sample_config sample_runtime sample_now None None) =
     Inr (AssignmentsText (map assignment_summary
       (filter (\<lambda>x. falsy_string (due_at (fst x)) \<or>
                  due_now_or_later sample_runtime sample_now (fst x)) sample_fetched)))"
    using t by simp
  have b: "snd (getAssignments sample_config sample_runtime sample_now None (Some True)) =
     Inr (AssignmentsText (map assignment_summary sample_fetched))"
    using u by simp
  show ?thesis
    using sample_fetched_run a b sample_kept n w e by (intro conjI)
qed

text \<open>
  The claim as stated fails where a \<^verbatim>\<open>due_at\<close> is not a date: the assignment fetched for
  course 3 has the \<^verbatim>\<open>due_at\<close> \<^verbatim>\<open>TBD\<close>, so its due date has not passed, and
  \<^verbatim>\<open>get_assignments\<close> excludes it all the same.
\<close>

theorem assignments_not_a_date_excluded:
  "snd (fetched_assignments sample_config sample_runtime (Some (Fin 3))) =
     Inr [(sample_assignment 31 ''Project'' (Some ''TBD'') 3 None, None)] \<and>
   \<not> due_date_passed sample_runtime sample_now
       (sample_assignment 31 ''Project'' (Some ''TBD'') 3 None) \<and>
   snd (getAssignments sample_config sample_runtime sample_now (Some (Fin 3)) None) =
     Inr (AssignmentsText [])"
proof -
  have p: "\<not> due_date_passed sample_runtime sample_now
       (sample_assignment 31 ''Project'' (Some ''TBD'') 3 None)"
    by (simp add: due_date_passed_def sample_assignment_def sample_runtime_def sample_parse_def)
  have "snd (getAssignments sample_config sample_runtime sample_now (Some (Fin 3)) None) =
     Inr (AssignmentsText [])"
    using sample_project_run
    by (simp add: getAssignments_def snd_await not_yet_due_def sample_assignment_def
        sample_runtime_def sample_parse_def Date_ge_def js_ge_def)
  with sample_project_run p show ?thesis by (intro conjI)
qed

section \<open>Searching assignments: verified properties\<close>

lemma each_course_result:
  assumes "snd (each_course config rt items courses acc) = Inr out"
  shows "out = acc @ concat (map (\<lambda>course. items course (assignments_of config rt course)) courses)"
  using assms
proof (induction courses arbitrary: acc)
  case Nil
  then show ?case by simp
next
  case (Cons course rest)
  obtain rs r where m: "makeCanvasRequest config (fetch_assignments rt)
      (CourseAssignments (c_id course)) = (rs, r)"
    by (cases "makeCanvasRequest config (fetch_assignments rt) (CourseAssignments (c_id course))")
  show ?case
  proof (cases r)
    case (Inl e)
    with Cons.prems m show ?thesis by simp
  next
    case (Inr assignments)
    have a: "assignments_of config rt course = assignments"
      by (simp add: assignments_of_def m Inr)
    have "snd (each_course config rt items rest (acc @ items course assignments)) = Inr out"
      using Cons.prems m Inr by (simp split: prod.splits)
    then have "out = (acc @ items course assignments) @
        concat (map (\<lambda>course. items course (assignments_of config rt course)) rest)"
      by (rule Cons.IH)
    then show ?thesis by (simp add: a)
  qed
qed

lemma allAssignments_result:
  assumes "snd (allAssignments config rt) = Inr found_all"
  shows "\<exists>courses. snd (makeCanvasRequest config (fetch_courses rt) ActiveCourses) = Inr courses \<and>
           found_all = concat (map (\<lambda>course. map (\<lambda>a. (a, c_name course))
             (assignments_of config rt course)) courses)"
proof -
  from assms obtain courses where
    c: "snd (makeCanvasRequest config (fetch_courses rt) ActiveCourses) = Inr courses"
    and e: "snd (each_course config rt (\<lambda>course. map (\<lambda>a. (a, c_name course))) courses []) =
        Inr found_all"
    unfolding allAssignments_def by (rule snd_await_Inr)
  from each_course_result[OF e] c show ?thesis by auto
qed

lemma matches_iff:
  "matches rt q x \<longleftrightarrow>
     sublist (toLowerCase rt q) (toLowerCase rt (a_name (fst x))) \<or>
     sublist (toLowerCase rt q) (toLowerCase rt (snd x))"
  by (cases x) (simp add: matches_def String_includes_def)

lemma search_result:
  assumes "snd (allAssignments config rt) = Inr found_all"
  shows "snd (searchAssignments config rt (Some q)) =
           Inr (SearchText (Some q) (map search_summary (filter (matches rt q) found_all)))"
  using assms by (simp add: searchAssignments_def snd_await matchingAssignments_def)

lemma ascii_lower_OPT: "map ascii_lower ''OPT'' = ''opt''" "map ascii_lower ''opt'' = ''opt''"
  by (simp_all add: ascii_lower_def)

lemma sample_search_names:
  "map (a_name \<circ> fst) (filter (\<lambda>x. sublist ''opt'' (map ascii_lower (a_name (fst x))) \<or>
      sublist ''opt'' (map ascii_lower (snd x))) sample_all) = [''Report'', ''Lab'']"
  by (simp add: sample_all_def sample_assignments_def sample_assignment_def ascii_lower_def
      sublist_code)


lemma sample_toLowerCase: "toLowerCase sample_runtime = map ascii_lower"
  by (simp add: sample_runtime_def)

lemma map_so_name: "map so_name (map search_summary xs) = map (a_name \<circ> fst) xs"
  by (simp add: search_summary_def split_def comp_def)

text \<open>
  Claim C5. For a query string \<open>q\<close>, \<^verbatim>\<open>search_assignments\<close> returns, in order, exactly the
  fetched assignments for which the lower-cased query occurs as a contiguous block in the
  lower-cased assignment name or in the lower-cased name of the course the assignment was
  fetched for. Two queries with the same lower-casing (queries that differ in letter case
  only) give the same results.
\<close>

theorem search_matches_case_insensitively:
  assumes "snd (allAssignments config rt) = Inr found_all"
  shows "snd (searchAssignments config rt (Some q)) =
           Inr (SearchText (Some q) (map search_summary
             (filter (\<lambda>x. sublist (toLowerCase rt q) (toLowerCase rt (a_name (fst x))) \<or>
                          sublist (toLowerCase rt q) (toLowerCase rt (snd x))) found_all))) \<and>
         (\<forall>q'. toLowerCase rt q' = toLowerCase rt q \<longrightarrow>
            (\<exists>found. snd (searchAssignments config rt (Some q')) = Inr (SearchText (Some q') found) \<and>
                     snd (searchAssignments config rt (Some q)) = Inr (SearchText (Some q) found))) \<and>
         (\<exists>courses. snd (makeCanvasRequest config (fetch_courses rt) ActiveCourses) = Inr courses \<and>
            found_all = concat (map (\<lambda>course. map (\<lambda>a. (a, c_name course))
              (assignments_of config rt course)) courses))"
proof -
  have m: "matches rt q = (\<lambda>x. sublist (toLowerCase rt q) (toLowerCase rt (a_name (fst x))) \<or>
                          sublist (toLowerCase rt q) (toLowerCase rt (snd x)))" for q
    by (rule ext) (rule matches_iff)
  have 1: "snd (searchAssignments config rt (Some q)) =
           Inr (SearchText (Some q) (map search_summary
             (filter (\<lambda>x. sublist (toLowerCase rt q) (toLowerCase rt (a_name (fst x))) \<or>
                          sublist (toLowerCase rt q) (toLowerCase rt (snd x))) found_all)))"
    using search_result[OF assms, of q] by (simp only: m)
  have 2: "\<forall>q'. toLowerCase rt q' = toLowerCase rt q \<longrightarrow>
            (\<exists>found. snd (searchAssignments config rt (Some q')) = Inr (SearchText (Some q') found) \<and>
                     snd (searchAssignments config rt (Some q)) = Inr (SearchText (Some q) found))"
  proof (intro allI impI)
    fix q'
    assume e: "toLowerCase rt q' = toLowerCase rt q"
    have "matches rt q' = matches rt q" by (simp only: m e)
    then show "\<exists>found. snd (searchAssignments config rt (Some q')) = Inr (SearchText (Some q') found) \<and>
                     snd (searchAssignments config rt (Some q)) = Inr (SearchText (Some q) found)"
      using search_result[OF assms, of q'] search_result[OF assms, of q] by simp
  qed
  from 1 2 allAssignments_result[OF assms] show ?thesis by blast
qed

theorem search_witness:
  "snd (allAssignments sample_config sample_runtime) = Inr sample_all \<and>
   toLowerCase sample_runtime ''opt'' = toLowerCase sample_runtime ''OPT'' \<and>
   (\<exists>found. snd (searchAssignments sample_config sample_runtime (Some ''opt'')) =
        Inr (SearchText (Some ''opt'') found) \<and>
      snd (searchAssignments sample_config sample_runtime (Some ''OPT'')) =
        Inr (SearchText (Some ''OPT'') found) \<and>
      map so_name found = [''Report'', ''Lab''])"
proof -
  have h: "snd (allAssignments sample_config sample_runtime) = Inr sample_all"
    by (rule sample_all_run)
  have l: "toLowerCase sample_runtime ''opt'' = toLowerCase sample_runtime ''OPT''"
    by (simp only: sample_toLowerCase ascii_lower_OPT)
  note t = search_matches_case_insensitively[OF h, of "''OPT''"]
  from t l obtain found where
    f: "snd (searchAssignments sample_config sample_runtime (Some ''opt'')) =
        Inr (SearchText (Some ''opt'') found)"
       "snd (searchAssignments sample_config sample_runtime (Some ''OPT'')) =
        Inr (SearchText (Some ''OPT'') found)"
    by blast
  from t f(2) have "found = map search_summary
      (filter (\<lambda>x. sublist (toLowerCase sample_runtime ''OPT'')
                      (toLowerCase sample_runtime (a_name (fst x))) \<or>
                    sublist (toLowerCase sample_runtime ''OPT'')
                      (toLowerCase sample_runtime (snd x))) sample_all)"
    by simp
  then have "found = map search_summary
      (filter (\<lambda>x. sublist ''opt'' (map ascii_lower (a_name (fst x))) \<or>
                    sublist ''opt'' (map ascii_lower (snd x))) sample_all)"
    by (simp only: sample_toLowerCase ascii_lower_OPT)
  then have n: "map so_name found = [''Report'', ''Lab'']"
    by (simp only: map_so_name sample_search_names)
  show ?thesis
    using h l f n by (intro conjI exI[of _ found])
qed

section \<open>Course progress: verified properties\<close>




lemma completion_rate_range:
  assumes "assignments \<noteq> []"
  shows "\<exists>k. completion_rate_of (filter P assignments) assignments = Fin (of_int k) \<and>
              0 \<le> k \<and> k \<le> 100"
proof -
  have "length (filter P assignments) \<le> length assignments" by simp
  moreover have "0 < length assignments" using assms by simp
  ultimately show ?thesis
    unfolding completion_rate_of_def length_number_def by (rule percentage_range)
qed



lemma floor_numeral_div: "\<lfloor>numeral a / numeral b :: rat\<rfloor> = numeral a div numeral b"
  using floor_divide_of_int_eq[of "numeral a" "numeral b", where ?'a = rat] by simp











text \<open>
  Two more values of the number model, for comparison with any JavaScript runtime: \<^verbatim>\<open>0.1\<close> is
  \<open>3602879701896397 / 2 ^ 55\<close>, and \<^verbatim>\<open>0.1 + 0.2\<close> is \<^verbatim>\<open>0.30000000000000004\<close>, that is
  \<open>1351079888211149 / 2 ^ 52\<close>.
\<close>

lemma flog2_tenth: "flog2 (1 / 10) = - 4"
  by (rule flog2_eqI) simp_all

lemma round64_tenth: "round64 (1 / 10) = Fin (3602879701896397 / 36028797018963968)"
  by (simp add: round64_def rnd_mag_def quantum_def flog2_tenth rne_def Let_def floor_numeral_div)

lemma flog2_fifth: "flog2 (1 / 5) = - 3"
  by (rule flog2_eqI) simp_all

lemma round64_fifth: "round64 (1 / 5) = Fin (3602879701896397 / 18014398509481984)"
  by (simp add: round64_def rnd_mag_def quantum_def flog2_fifth rne_def Let_def floor_numeral_div)

lemma flog2_sum: "flog2 (10808639105689191 / 36028797018963968) = - 2"
  by (rule flog2_eqI) simp_all

lemma round64_sum:
  "round64 (10808639105689191 / 36028797018963968) = Fin (1351079888211149 / 4503599627370496)"
  by (simp add: round64_def rnd_mag_def quantum_def flog2_sum rne_def Let_def floor_numeral_div)

lemma tenth_plus_fifth:
  "js_add (round64 (1 / 10)) (round64 (1 / 5)) = Fin (1351079888211149 / 4503599627370496)"
  by (simp add: round64_tenth round64_fifth round64_sum)

end
